theory Spec2Isabelle
  imports Main
begin

section \<open>Time: the part of moment.js that DisneyBase.js uses\<close>

text \<open>
  All instants are milliseconds on the park's standard-time line: the time in
  \<open>park_timezone\<close> when no daylight saving applies, so that \<open>Date.now()\<close>, \<open>moment()\<close> and
  \<open>moment.tz(..., park_timezone)\<close> read the same clock. A calendar date is its day number
  on that line; the strings made by \<open>format(dateFormat)\<close> and \<open>format("YYYY-MM-DD")\<close> are
  represented by that day number, and the strings made by \<open>format(timeFormat)\<close> by the
  instant they denote (\<open>dateFormat\<close>, \<open>timeFormat\<close> and \<open>timeFormatTimezone\<close> come from the
  parent class \<open>Park\<close>, which only configures how the same instants are printed).

  Where the code finds the day of the query (\<open>startOf\<close>, \<open>endOf\<close>, \<open>format\<close> of a date,
  \<open>isBetween\<close>) the model reads this line. \<open>ParseScheduleEntry\<close>, which turns the times of
  day written in a schedule entry into instants and adds a day to one of them, takes the
  daylight-saving changes of \<open>park_timezone\<close> into account: see the zones below.
\<close>

type_synonym instant = int
type_synonym day = int

definition dayMs :: int where
  "dayMs = 86400000"

datatype unit_of_time = Day

text \<open>\<open>m.startOf(units)\<close> and \<open>m.endOf(units)\<close>. moment.js returns the moment unchanged
  when no unit is given (\<open>units === undefined\<close>); \<open>None\<close> is that call.\<close>

fun startOf :: "unit_of_time option \<Rightarrow> instant \<Rightarrow> instant" where
  "startOf None t = t"
| "startOf (Some Day) t = (t div dayMs) * dayMs"

fun endOf :: "unit_of_time option \<Rightarrow> instant \<Rightarrow> instant" where
  "endOf None t = t"
| "endOf (Some Day) t = (t div dayMs) * dayMs + dayMs - 1"

text \<open>\<open>m.add(n, "day")\<close> (also with the amount given as the string \<open>"1"\<close>, which
  moment.js converts to a number).\<close>

definition addDays :: "int \<Rightarrow> instant \<Rightarrow> instant" where
  "addDays n t = t + n * dayMs"

definition isBefore :: "instant \<Rightarrow> instant \<Rightarrow> bool" where
  "isBefore a b = (a < b)"

definition isAfter :: "instant \<Rightarrow> instant \<Rightarrow> bool" where
  "isAfter a b = (b < a)"

definition isSameOrBefore :: "instant \<Rightarrow> instant \<Rightarrow> bool" where
  "isSameOrBefore a b = (a \<le> b)"

text \<open>\<open>m.isBetween(from, to)\<close> with no inclusivity argument: moment.js's default is
  \<open>"()"\<close>, both ends excluded (\<open>isAfter(from) && isBefore(to)\<close>).\<close>

definition isBetween :: "instant \<Rightarrow> instant \<Rightarrow> instant \<Rightarrow> bool" where
  "isBetween t from to = (isAfter t from \<and> isBefore t to)"

text \<open>\<open>m.format(dateFormat)\<close>: the calendar date an instant falls on.\<close>

definition formatDate :: "instant \<Rightarrow> day" where
  "formatDate t = t div dayMs"

text \<open>\<open>moment.tz(date, park_timezone)\<close>: local midnight of a calendar date.\<close>

definition momentOfDate :: "day \<Rightarrow> instant" where
  "momentOfDate d = d * dayMs"

text \<open>\<open>moment.tz(date + time, "YYYY-MM-DDHH:mm", park_timezone)\<close>; the \<open>HH:mm\<close> string is
  represented by its minutes after midnight (\<open>"22:00"\<close> is \<open>1320\<close>).\<close>

definition momentOfDateTime :: "day \<Rightarrow> nat \<Rightarrow> instant" where
  "momentOfDateTime d hhmm = d * dayMs + int hhmm * 60000"

subsection \<open>Time zones with daylight saving\<close>

text \<open>
  A zone of moment-timezone, as far as \<open>ParseScheduleEntry\<close> uses it. \<open>offsetAt z t\<close> is what
  the zone's clock is ahead of the standard-time line at the instant \<open>t\<close> (\<open>zone.utcOffset\<close>:
  0 in winter, an hour in summer). \<open>parseOffset z w\<close> is the offset moment-timezone applies
  to a clock reading \<open>w\<close> (a date and time of day as written, laid on the same line) when
  it parses it (\<open>zone.parse\<close>); outside the hour skipped in spring and the hour repeated in
  autumn it is the offset in force at that reading.
\<close>

record zone =
  offsetAt :: "instant \<Rightarrow> int"
  parseOffset :: "int \<Rightarrow> int"

text \<open>\<open>moment.tz(date + time, "YYYY-MM-DDHH:mm", park_timezone)\<close>: the instant at which the
  zone's clock shows the reading.\<close>

definition momentTz :: "zone \<Rightarrow> day \<Rightarrow> nat \<Rightarrow> instant" where
  "momentTz z d hhmm = momentOfDateTime d hhmm - parseOffset z (momentOfDateTime d hhmm)"

text \<open>
  \<open>m.add("1", "day")\<close> on a moment in a zone. moment.js moves the clock reading by one day
  and then asks the zone for its offset (\<open>updateOffset\<close> with \<open>keepTime\<close>): with \<open>u0\<close> the
  offset the moment had and \<open>u1\<close> the offset the zone has 24 hours later, the new instant is
  \<open>t + 24 h + u0 - u1\<close>. When the offset has not changed this is the same reading on the
  next day; when the reading does not exist on the next day it is 23 hours later, an hour
  earlier on the clock.
\<close>

definition addDayTz :: "zone \<Rightarrow> instant \<Rightarrow> instant" where
  "addDayTz z t = t + dayMs + offsetAt z t - offsetAt z (t + dayMs)"



text \<open>A zone without daylight saving.\<close>

definition fixedZone :: zone where
  "fixedZone = \<lparr>offsetAt = (\<lambda>t. 0), parseOffset = (\<lambda>w. 0)\<rparr>"


section \<open>Data\<close>

text \<open>One entry of \<open>sched.schedule.schedules\<close> in the upstream schedule payload.\<close>

record RawEntry =
  rawDate :: day
  startTime :: nat
  endTime :: nat
  rawType :: string

text \<open>A special-hours object: \<open>{openingTime, closingTime, type}\<close>.\<close>

record SpecialWindow =
  specialOpeningTime :: instant
  specialClosingTime :: instant
  specialType :: string

text \<open>A day's schedule object. \<open>date\<close> and \<open>special\<close> are \<open>None\<close> when the object has no
  such property.\<close>

record DayWindow =
  date :: "day option"
  openingTime :: instant
  closingTime :: instant
  windowType :: string
  special :: "SpecialWindow list option"

section \<open>ParseScheduleEntry\<close>

definition ParseScheduleEntry :: "zone \<Rightarrow> RawEntry \<Rightarrow> instant \<times> instant" where
  "ParseScheduleEntry z entry =
     (let openingTime = momentTz z (rawDate entry) (startTime entry);
          closingTime = momentTz z (rawDate entry) (endTime entry);
          closingTime = (if isBefore closingTime openingTime then addDayTz z closingTime
                         else closingTime)
      in (openingTime, closingTime))"


section \<open>ParseScheduleData: the per-attraction loops\<close>

text \<open>
  The local object \<open>times\<close> is a JavaScript object whose keys are formatted dates. Such
  keys (\<open>"2017-03-01"\<close>; the file itself compares \<open>time.date\<close> with a date printed as
  \<open>"YYYY-MM-DD"\<close>) are not array indices, so \<open>for (var day in times)\<close> visits them in the
  order in which they were first assigned. The object is therefore an association list in
  insertion order: assigning to an existing key keeps its place, assigning to a new key
  appends it. The variable is written \<open>timesObj\<close> below.
\<close>

fun objSet :: "('k \<times> 'v) list \<Rightarrow> 'k \<Rightarrow> 'v \<Rightarrow> ('k \<times> 'v) list" where
  "objSet [] k v = [(k, v)]"
| "objSet ((k', v') # kvs) k v =
     (if k' = k then (k, v) # kvs else (k', v') # objSet kvs k v)"

definition objGet :: "('k \<times> 'v) list \<Rightarrow> 'k \<Rightarrow> 'v option" where
  "objGet kvs k = map_of kvs k"

definition openingTypes :: "string list" where
  "openingTypes = [''Operating'', ''Closed'', ''Refurbishment'']"

text \<open>Body of the first inner loop (lines 266-282): the "normal" operating hours.\<close>

definition standardStep ::
  "zone \<Rightarrow> instant \<Rightarrow> instant \<Rightarrow> (day \<times> DayWindow) list \<Rightarrow> RawEntry \<Rightarrow> (day \<times> DayWindow) list" where
  "standardStep z startDate endDate timesObj time =
     (if rawType time \<in> set openingTypes then
        (let day = momentOfDate (rawDate time) in
         if isAfter day endDate then timesObj
         else if isBefore day startDate then timesObj
         else
           (let (opening, closing) = ParseScheduleEntry z time;
                dayObj = \<lparr>date = Some (formatDate day),
                          openingTime = opening,
                          closingTime = closing,
                          windowType = (if rawType time = ''Operating'' then ''Operating'' else ''Closed''),
                          special = Some []\<rparr>
            in objSet timesObj (formatDate day) dayObj))
      else timesObj)"

fun addStandard ::
  "zone \<Rightarrow> instant \<Rightarrow> instant \<Rightarrow> RawEntry list \<Rightarrow> (day \<times> DayWindow) list \<Rightarrow> (day \<times> DayWindow) list" where
  "addStandard z startDate endDate [] timesObj = timesObj"
| "addStandard z startDate endDate (time # rest) timesObj =
     addStandard z startDate endDate rest (standardStep z startDate endDate timesObj time)"

text \<open>Body of the second inner loop (lines 285-303): the special hours. Every object in
  \<open>times\<close> was made by the first loop and has a \<open>special\<close> array, so the \<open>push\<close> always
  finds one; a special entry whose date has no standard object is dropped.\<close>

definition specialStep ::
  "zone \<Rightarrow> instant \<Rightarrow> instant \<Rightarrow> (day \<times> DayWindow) list \<Rightarrow> RawEntry \<Rightarrow> (day \<times> DayWindow) list" where
  "specialStep z startDate endDate timesObj time =
     (if rawType time \<notin> set openingTypes then
        (let day = momentOfDate (rawDate time) in
         if isAfter day endDate then timesObj
         else if isBefore day startDate then timesObj
         else
           (let dayFormatted = formatDate day;
                (opening, closing) = ParseScheduleEntry z time;
                dayObj = \<lparr>specialOpeningTime = opening,
                          specialClosingTime = closing,
                          specialType = rawType time\<rparr>
            in case objGet timesObj dayFormatted of
                 None \<Rightarrow> timesObj
               | Some w \<Rightarrow>
                   objSet timesObj dayFormatted
                     (w\<lparr>special := map_option (\<lambda>sp. sp @ [dayObj]) (special w)\<rparr>)))
      else timesObj)"

fun addSpecial ::
  "zone \<Rightarrow> instant \<Rightarrow> instant \<Rightarrow> RawEntry list \<Rightarrow> (day \<times> DayWindow) list \<Rightarrow> (day \<times> DayWindow) list" where
  "addSpecial z startDate endDate [] timesObj = timesObj"
| "addSpecial z startDate endDate (time # rest) timesObj =
     addSpecial z startDate endDate rest (specialStep z startDate endDate timesObj time)"

text \<open>Body of the third loop (lines 306-317). \<open>day.startOf()\<close> and \<open>day.endOf()\<close> are called
  without a unit.\<close>

definition fillStep :: "(day \<times> DayWindow) list \<Rightarrow> instant \<Rightarrow> (day \<times> DayWindow) list" where
  "fillStep timesObj day =
     (let dayFormatted = formatDate day in
      if (case objGet timesObj dayFormatted of None \<Rightarrow> True | Some w \<Rightarrow> date w = None) then
        objSet timesObj dayFormatted
          \<lparr>date = Some (formatDate day),
           openingTime = startOf None day,
           closingTime = endOf None day,
           windowType = ''Closed'',
           special = None\<rparr>
      else timesObj)"

function fillMissing ::
  "instant \<Rightarrow> instant \<Rightarrow> (day \<times> DayWindow) list \<Rightarrow> (day \<times> DayWindow) list" where
  "fillMissing day endDate timesObj =
     (if isSameOrBefore day endDate
      then fillMissing (addDays 1 day) endDate (fillStep timesObj day)
      else timesObj)"
  by pat_completeness auto
termination
  by (relation "measure (\<lambda>(day, endDate, timesObj). nat (endDate - day + 1))")
     (auto simp: isSameOrBefore_def addDays_def dayMs_def)

declare fillMissing.simps [simp del]

text \<open>The array \<open>timeArray\<close> built for one attraction (lines 263-323).\<close>

definition parseTimes :: "zone \<Rightarrow> instant \<Rightarrow> instant \<Rightarrow> RawEntry list \<Rightarrow> DayWindow list" where
  "parseTimes z startDate endDate schedules =
     (let timesObj = addStandard z startDate endDate schedules [];
          timesObj = addSpecial z startDate endDate schedules timesObj;
          timesObj = fillMissing startDate endDate timesObj
      in map snd timesObj)"

section \<open>Ride identifiers\<close>

text \<open>\<open>CleanRideID\<close>: the regular expression \<open>/^([^;]+)/\<close> captures the longest prefix
  without a semicolon; when it is empty there is no match and the id is returned as is.\<close>

definition CleanRideID :: "string \<Rightarrow> string" where
  "CleanRideID ride_id =
     (let capture = takeWhile (\<lambda>c. c \<noteq> CHR '';'') ride_id
      in if capture \<noteq> [] then capture else ride_id)"

section \<open>Objects, caches and the network\<close>

text \<open>
  Schedule objects are shared: the arrays kept in \<open>scheduleCache\<close> and the \<open>schedule\<close>
  property of a ride returned by \<open>GetWaitTimes\<close> can hold the same object. The objects
  therefore live in a store, a list indexed by address; arrays and properties hold
  addresses. A new object is appended to the store.
\<close>

type_synonym addr = nat

definition allocAll :: "DayWindow list \<Rightarrow> DayWindow list \<Rightarrow> DayWindow list \<times> addr list" where
  "allocAll store ws = (store @ ws, [length store ..< length store + length ws])"

text \<open>An entry of the module-level \<open>scheduleCache\<close>: \<open>{expires, data}\<close>, where \<open>data\<close> maps a
  cleaned id to its array of schedule objects.\<close>

record CacheEntry =
  expires :: instant
  data :: "string \<rightharpoonup> addr list"

text \<open>\<open>self._accessToken\<close>: \<open>{token, expires}\<close>, and \<open>correlation\<close> once a response carried
  the header.\<close>

record AccessToken =
  token :: string
  tokenExpires :: instant
  correlation :: "string option"

datatype endpoint = TokenURL | ScheduleURL | WaitTimesURL

text \<open>A request handed to \<open>MakeNetworkRequest\<close>: where it goes and the bearer token it
  carries.\<close>

record request =
  target :: endpoint
  bearer :: "string option"

text \<open>
  The state of the process: the clock (\<open>Date.now()\<close>, \<open>moment()\<close>), the store of schedule
  objects, the module-level \<open>scheduleCache\<close> keyed by resort id, the park's
  \<open>_accessToken\<close>, and the log of the requests sent upstream so far.
\<close>

record state =
  clock :: instant
  objects :: "DayWindow list"
  scheduleCache :: "string \<rightharpoonup> CacheEntry"
  accessToken :: "AccessToken option"
  requests :: "request list"

text \<open>The park's configuration (set by the constructor, the subclass and \<open>Park\<close>). An
  unset \<open>park_id\<close> or \<open>park_region\<close> is the empty string.\<close>

record config =
  resort_id :: string
  park_id :: string
  park_region :: string
  park_timezone :: zone
  scheduleMaxDates :: nat

text \<open>Errors. \<open>Reported msg\<close> is an error handed to the callback: by \<open>self.Error(msg, cause,
  callback)\<close> of the parent class \<open>Park\<close>, which reports \<open>msg\<close> to the callback, or by
  \<open>callback(err)\<close>. \<open>ExpiryTooLow n\<close> is the string \<open>"Expirey time is very low: " + n\<close>.
  \<open>TypeError\<close> is the exception of reading a property of \<open>undefined\<close>.\<close>

datatype error = Reported string | ExpiryTooLow int | TypeError

text \<open>What \<open>JSON.parse(body)\<close> gives: an exception, a falsy value (\<open>null\<close>, \<open>false\<close>, \<open>0\<close>,
  \<open>""\<close>), or an object.\<close>

datatype 'a json = InvalidJSON | Falsy | Obj 'a

text \<open>What the upstream answers to one request: after \<open>latency\<close> milliseconds the callback
  of \<open>MakeNetworkRequest\<close> runs with \<open>err\<close>, the response's status code, its
  \<open>x-correlation-id\<close> header and its body.\<close>

record 'a reply =
  latency :: nat
  netError :: "string option"
  statusCode :: int
  correlationHeader :: "string option"
  body :: "'a json"

definition MakeNetworkRequest :: "request \<Rightarrow> 'a reply \<Rightarrow> state \<Rightarrow> state" where
  "MakeNetworkRequest req r st =
     st\<lparr>clock := clock st + int (latency r), requests := requests st @ [req]\<rparr>"

text \<open>Truthiness of an optional string property and of an optional number property.\<close>

definition truthyString :: "string option \<Rightarrow> bool" where
  "truthyString s = (case s of None \<Rightarrow> False | Some v \<Rightarrow> v \<noteq> [])"

definition truthyNumber :: "int option \<Rightarrow> bool" where
  "truthyNumber n = (case n of None \<Rightarrow> False | Some v \<Rightarrow> v \<noteq> 0)"

section \<open>The access token\<close>

text \<open>The body of the token response.\<close>

record TokenData =
  access_token :: "string option"
  expires_in :: "int option"

definition FetchAccessToken :: "TokenData reply \<Rightarrow> state \<Rightarrow> (error + string \<times> instant) \<times> state" where
  "FetchAccessToken r st =
     (let st = MakeNetworkRequest \<lparr>target = TokenURL, bearer = None\<rparr> r st in
      if netError r \<noteq> None then (Inl (Reported ''Failed to get access token''), st)
      else if statusCode r \<noteq> 200 then
        (Inl (Reported ''Unexpected status code for access token response, expected 200''), st)
      else
        (case body r of
           InvalidJSON \<Rightarrow> (Inl (Reported ''Invalid JSON returned for access token''), st)
         | Falsy \<Rightarrow> (Inl (Reported ''Invalid body response for access token''), st)
         | Obj d \<Rightarrow>
             if truthyString (access_token d) \<and> truthyNumber (expires_in d) then
               (let expire_time = clock st + max (the (expires_in d) - 30) 5 * 1000 in
                if the (expires_in d) < 5 then (Inl (ExpiryTooLow (the (expires_in d))), st)
                else (Inr (the (access_token d), expire_time), st))
             else (Inl (Reported ''Invalid body response for access token''), st)))"

definition GetAccessToken :: "TokenData reply \<Rightarrow> state \<Rightarrow> (error + string) \<times> state" where
  "GetAccessToken tokenReply st =
     (let st = (case accessToken st of
                  None \<Rightarrow> st
                | Some t \<Rightarrow> if tokenExpires t \<le> clock st then st\<lparr>accessToken := None\<rparr> else st)
      in case accessToken st of
           Some t \<Rightarrow> (Inr (token t), st)
         | None \<Rightarrow>
             (case FetchAccessToken tokenReply st of
                (Inl err, st) \<Rightarrow> (Inl err, st)
              | (Inr (tok, expiry), st) \<Rightarrow>
                  (Inr tok,
                   st\<lparr>accessToken := Some \<lparr>token = tok, tokenExpires = expiry, correlation = None\<rparr>\<rparr>)))"

section \<open>FetchURL\<close>

definition FetchURL ::
  "endpoint \<Rightarrow> TokenData reply \<Rightarrow> 'a reply \<Rightarrow> state \<Rightarrow> (error + 'a option) \<times> state" where
  "FetchURL url tokenReply r st =
     (case GetAccessToken tokenReply st of
        (Inl err, st) \<Rightarrow> (Inl (Reported ''Error getting access token for API URL''), st)
      | (Inr tok, st) \<Rightarrow>
          (let st = MakeNetworkRequest
                      \<lparr>target = url, bearer = map_option token (accessToken st)\<rparr> r st;
               st = (case accessToken st of
                       Some t \<Rightarrow>
                         if truthyString (correlationHeader r)
                         then st\<lparr>accessToken := Some (t\<lparr>correlation := correlationHeader r\<rparr>)\<rparr>
                         else st
                     | None \<Rightarrow> st)
           in if netError r \<noteq> None then (Inl (Reported ''Error making API request''), st)
              else (case body r of
                      InvalidJSON \<Rightarrow> (Inl (Reported ''Invalid JSON data returned by API''), st)
                    | Falsy \<Rightarrow> (Inr None, st)
                    | Obj d \<Rightarrow> (Inr (Some d), st))))"

section \<open>The schedule cache\<close>

text \<open>One element of \<open>data.activities\<close>. \<open>schedules\<close> is \<open>None\<close> when \<open>sched.schedule\<close> or
  \<open>sched.schedule.schedules\<close> is missing. The elements of the payload's arrays are objects, so
  the loops of the form \<open>for (var i = 0, x; x = xs[i++];)\<close> visit every element.\<close>

record Activity =
  activityId :: string
  schedules :: "RawEntry list option"

record ScheduleData =
  activities :: "Activity list option"

text \<open>The outer loop of \<open>ParseScheduleData\<close> (lines 259-327), filling the local object
  \<open>schedule\<close>; the objects of each \<open>timeArray\<close> are new objects in the store.\<close>

fun parseActivities ::
  "zone \<Rightarrow> instant \<Rightarrow> instant \<Rightarrow> Activity list \<Rightarrow> DayWindow list \<Rightarrow> (string \<rightharpoonup> addr list)
     \<Rightarrow> DayWindow list \<times> (string \<rightharpoonup> addr list)" where
  "parseActivities z startDate endDate [] store schedule = (store, schedule)"
| "parseActivities z startDate endDate (sched # rest) store schedule =
     (case schedules sched of
        None \<Rightarrow> parseActivities z startDate endDate rest store schedule
      | Some raw \<Rightarrow>
          (let (store, timeArray) = allocAll store (parseTimes z startDate endDate raw)
           in parseActivities z startDate endDate rest store
                (schedule(CleanRideID (activityId sched) \<mapsto> timeArray))))"

definition ParseScheduleData ::
  "config \<Rightarrow> ScheduleData \<Rightarrow> instant \<Rightarrow> instant \<Rightarrow> state \<Rightarrow> (error + addr list option) \<times> state" where
  "ParseScheduleData cfg d startDate endDate st =
     (case activities d of
        None \<Rightarrow> (Inl (Reported ''No schedule data returned''), st)
      | Some acts \<Rightarrow>
          (let (store', schedule) =
                 parseActivities (park_timezone cfg) startDate endDate acts (objects st) Map.empty;
               st = st\<lparr>objects := store',
                       scheduleCache := (scheduleCache st)(resort_id cfg \<mapsto>
                         \<lparr>expires = clock st + 1000 * 60 * 60 * 12, data = schedule\<rparr>)\<rparr>
           in (Inr (schedule (park_id cfg)), st)))"

text \<open>The live payload: \<open>data.entries\<close>, each entry with \<open>id\<close>, \<open>name\<close>, \<open>type\<close> and the
  status object \<open>waitTime\<close>; a property that is missing is \<open>None\<close>.\<close>

record LiveFastPass =
  available :: "bool option"

record LiveWaitTime =
  postedWaitMinutes :: "int option"
  status :: "string option"
  fastPass :: "LiveFastPass option"

record LiveEntry =
  ride_id :: "string option"
  ride_name :: "string option"
  ride_type :: "string option"
  ride_waitTime :: "LiveWaitTime option"

record WaitData =
  entries :: "LiveEntry list option"

text \<open>What the upstream answers to each kind of request during one operation.\<close>

record upstream =
  tokenReply :: "TokenData reply"
  scheduleReply :: "ScheduleData reply"
  waitReply :: "WaitData reply"

text \<open>The test of lines 206-207: an entry for the resort exists and
  \<open>expires >= Date.now()\<close>.\<close>

definition cacheFresh :: "config \<Rightarrow> state \<Rightarrow> bool" where
  "cacheFresh cfg st =
     (case scheduleCache st (resort_id cfg) of
        None \<Rightarrow> False
      | Some c \<Rightarrow> expires c \<ge> clock st)"

definition CacheScheduleData :: "config \<Rightarrow> upstream \<Rightarrow> state \<Rightarrow> (error + unit) \<times> state" where
  "CacheScheduleData cfg up st =
     (if cacheFresh cfg st
      then (Inr (), st)
      else
        (let startDate = startOf (Some Day) (clock st);
             endDate = endOf (Some Day) (addDays (int (scheduleMaxDates cfg)) (clock st))
         in case FetchURL ScheduleURL (tokenReply up) (scheduleReply up) st of
              (Inl err, st) \<Rightarrow> (Inl (Reported ''Error fetching park schedule''), st)
            | (Inr None, st) \<Rightarrow> (Inl (Reported ''No schedule data returned''), st)
            | (Inr (Some d), st) \<Rightarrow>
                (case ParseScheduleData cfg d startDate endDate st of
                   (Inl err, st) \<Rightarrow> (Inl err, st)
                 | (Inr t, st) \<Rightarrow> (Inr (), st))))"

section \<open>GetWaitTimes\<close>

text \<open>The \<open>schedule\<close> property of a returned ride: a schedule object of the cache (its
  address), the new object made for a ride without cached schedule, or \<open>null\<close>.\<close>

datatype schedule_ref = Cached addr | Fresh DayWindow | Null

record Ride =
  obj_id :: string
  obj_name :: string
  obj_waitTime :: int
  obj_active :: bool
  obj_status :: string
  obj_fastPass :: "bool option"
  obj_schedule :: schedule_ref

definition expectedRideStatusStrings :: "string list" where
  "expectedRideStatusStrings = [''Operating'', ''Closed'', ''Down'']"

text \<open>The loop over the cached array (lines 117-127): \<open>todaysSchedule\<close> and the schedule
  found active so far (\<open>None\<close> while \<open>obj.schedule\<close> is still the empty object).\<close>

fun scanTimes ::
  "DayWindow list \<Rightarrow> instant \<Rightarrow> day \<Rightarrow> addr list \<Rightarrow> addr option \<Rightarrow> addr option
     \<Rightarrow> addr option \<times> addr option" where
  "scanTimes store timeNow dateToday [] todaysSchedule schedule = (todaysSchedule, schedule)"
| "scanTimes store timeNow dateToday (time # rest) todaysSchedule schedule =
     (let todaysSchedule =
            (if date (store ! time) = Some dateToday then Some time else todaysSchedule);
          schedule =
            (if isBetween timeNow (openingTime (store ! time)) (closingTime (store ! time))
             then Some time else schedule)
      in scanTimes store timeNow dateToday rest todaysSchedule schedule)"

text \<open>Lines 117-142: the object chosen for \<open>obj.schedule\<close>, \<open>None\<close> for \<open>null\<close>. An object
  found active has non-empty \<open>openingTime\<close> and \<open>closingTime\<close> strings, so the test of
  line 131 only succeeds when none was found.\<close>

definition selectSchedule :: "DayWindow list \<Rightarrow> instant \<Rightarrow> day \<Rightarrow> addr list \<Rightarrow> addr option" where
  "selectSchedule store timeNow dateToday cached =
     (let (todaysSchedule, schedule) = scanTimes store timeNow dateToday cached None None
      in case schedule of
           Some a \<Rightarrow> Some a
         | None \<Rightarrow>
             (case todaysSchedule of
                Some a \<Rightarrow> Some a
              | None \<Rightarrow> if length cached \<noteq> 0 then Some (cached ! 0) else None))"

text \<open>Line 145: \<open>delete obj.schedule.date\<close>, on the object \<open>obj.schedule\<close> refers to.\<close>

definition deleteDate :: "DayWindow list \<Rightarrow> addr option \<Rightarrow> DayWindow list" where
  "deleteDate store schedule =
     (case schedule of
        None \<Rightarrow> store
      | Some a \<Rightarrow> if date (store ! a) \<noteq> None then store[a := (store ! a)\<lparr>date := None\<rparr>] else store)"

text \<open>The body of the loop over \<open>data.entries\<close> (lines 82-157) for one entry: \<open>None\<close> when
  the entry is skipped, the ride pushed otherwise; a \<open>TypeError\<close> when line 107 reads
  \<open>ride.waitTime.fastPass\<close> of an entry without \<open>waitTime\<close>.\<close>

definition buildRide ::
  "config \<Rightarrow> (string \<rightharpoonup> CacheEntry) \<Rightarrow> instant \<Rightarrow> day \<Rightarrow> LiveEntry \<Rightarrow> DayWindow list
     \<Rightarrow> (error + Ride option) \<times> DayWindow list" where
  "buildRide cfg cache timeNow dateToday ride store =
     (if truthyString (ride_id ride) \<and> truthyString (ride_name ride)
         \<and> truthyString (ride_type ride) \<and> ride_type ride = Some ''Attraction'' then
        (let oid = CleanRideID (the (ride_id ride));
             oname = the (ride_name ride);
             waitTime = (case ride_waitTime ride of
                           None \<Rightarrow> 0
                         | Some w \<Rightarrow> if truthyNumber (postedWaitMinutes w)
                                     then the (postedWaitMinutes w) else 0);
             active = (case ride_waitTime ride of
                         None \<Rightarrow> False
                       | Some w \<Rightarrow> status w = Some ''Operating'');
             rstatus = (case ride_waitTime ride of
                          None \<Rightarrow> ''Closed''
                        | Some w \<Rightarrow>
                            (case status w of
                               None \<Rightarrow> ''Closed''
                             | Some s \<Rightarrow> if s \<in> set expectedRideStatusStrings then s else ''Closed''))
         in case ride_waitTime ride of
              None \<Rightarrow> (Inl TypeError, store)
            | Some w \<Rightarrow>
                (let fp = (case fastPass w of None \<Rightarrow> None | Some f \<Rightarrow> available f);
                     cached = (case cache (resort_id cfg) of
                                 None \<Rightarrow> None
                               | Some c \<Rightarrow> data c oid)
                 in case cached of
                      Some refs \<Rightarrow>
                        (let schedule = selectSchedule store timeNow dateToday refs;
                             store = deleteDate store schedule
                         in (Inr (Some \<lparr>obj_id = oid, obj_name = oname, obj_waitTime = waitTime,
                                        obj_active = active, obj_status = rstatus,
                                        obj_fastPass = fp,
                                        obj_schedule = (case schedule of
                                                          None \<Rightarrow> Null
                                                        | Some a \<Rightarrow> Cached a)\<rparr>),
                             store))
                    | None \<Rightarrow>
                        (Inr (Some \<lparr>obj_id = oid, obj_name = oname, obj_waitTime = waitTime,
                                    obj_active = active, obj_status = rstatus,
                                    obj_fastPass = fp,
                                    obj_schedule = Fresh
                                      \<lparr>date = None,
                                       openingTime = startOf (Some Day) timeNow,
                                       closingTime = endOf (Some Day) timeNow,
                                       windowType = (if active then ''Operating'' else ''Closed''),
                                       special = None\<rparr>\<rparr>),
                         store)))
      else (Inr None, store))"

text \<open>The loop over \<open>data.entries\<close> (lines 80-158); an exception ends it, and the store
  keeps what the earlier iterations did.\<close>

fun buildRides ::
  "config \<Rightarrow> (string \<rightharpoonup> CacheEntry) \<Rightarrow> instant \<Rightarrow> day \<Rightarrow> LiveEntry list \<Rightarrow> Ride list
     \<Rightarrow> DayWindow list \<Rightarrow> (error + Ride list) \<times> DayWindow list" where
  "buildRides cfg cache timeNow dateToday [] rides store = (Inr rides, store)"
| "buildRides cfg cache timeNow dateToday (ride # rest) rides store =
     (case buildRide cfg cache timeNow dateToday ride store of
        (Inl err, store) \<Rightarrow> (Inl err, store)
      | (Inr None, store) \<Rightarrow> buildRides cfg cache timeNow dateToday rest rides store
      | (Inr (Some obj), store) \<Rightarrow>
          buildRides cfg cache timeNow dateToday rest (rides @ [obj]) store)"

definition GetWaitTimes :: "config \<Rightarrow> upstream \<Rightarrow> state \<Rightarrow> (error + Ride list) \<times> state" where
  "GetWaitTimes cfg up st =
     (if park_id cfg = [] then (Inl (Reported ''Park not configured correctly''), st)
      else if park_region cfg = [] then (Inl (Reported ''Park not configured correctly''), st)
      else
        (case CacheScheduleData cfg up st of
           (Inl err, st) \<Rightarrow> (Inl (Reported ''Error getting schedule data cache''), st)
         | (Inr u, st) \<Rightarrow>
             (case FetchURL WaitTimesURL (tokenReply up) (waitReply up) st of
                (Inl err, st) \<Rightarrow> (Inl (Reported ''Error fetching wait times''), st)
              | (Inr None, st) \<Rightarrow> (Inl (Reported ''No data returned for wait times''), st)
              | (Inr (Some d), st) \<Rightarrow>
                  (case entries d of
                     None \<Rightarrow> (Inl (Reported ''Invalid data returned from API (no entries)''), st)
                   | Some es \<Rightarrow>
                       (let timeNow = clock st;
                            dateToday = formatDate (clock st);
                            (result, store') =
                               buildRides cfg (scheduleCache st) timeNow dateToday es [] (objects st)
                        in (result, st\<lparr>objects := store'\<rparr>))))))"

section \<open>A running example\<close>

text \<open>A park of the resort \<open>dlp\<close> with one attraction, \<open>80010190\<close>, on day 100; the upstream
  answers with a token valid for \<open>e\<close> seconds, a schedule payload and a list of live
  entries.\<close>

definition exCfg :: config where
  "exCfg = \<lparr>resort_id = ''dlp'', park_id = ''P1'', park_region = ''fr'',
      park_timezone = fixedZone, scheduleMaxDates = 1\<rparr>"

definition exTokenReply :: "int \<Rightarrow> TokenData reply" where
  "exTokenReply e = \<lparr>latency = 120, netError = None, statusCode = 200, correlationHeader = None,
      body = Obj \<lparr>access_token = Some ''abc'', expires_in = Some e\<rparr>\<rparr>"

definition exWindow :: DayWindow where
  "exWindow = \<lparr>date = Some 100, openingTime = momentOfDateTime 100 540,
      closingTime = momentOfDateTime 100 1080, windowType = ''Operating'', special = Some []\<rparr>"

definition exStale :: state where
  "exStale = \<lparr>clock = momentOfDateTime 100 600, objects = [exWindow],
      scheduleCache = [''dlp'' \<mapsto> \<lparr>expires = momentOfDateTime 100 0, data = [''80010190'' \<mapsto> [0]]\<rparr>],
      accessToken = None, requests = []\<rparr>"

text \<open>The same state with a token that expired at midnight.\<close>

definition exExpired :: state where
  "exExpired = exStale\<lparr>accessToken :=
      Some \<lparr>token = ''old'', tokenExpires = momentOfDateTime 100 0, correlation = None\<rparr>\<rparr>"

definition exScheduleReply :: "Activity list option \<Rightarrow> ScheduleData reply" where
  "exScheduleReply acts = \<lparr>latency = 300, netError = None, statusCode = 200, correlationHeader = None,
      body = Obj \<lparr>activities = acts\<rparr>\<rparr>"

definition exActivities :: "Activity list" where
  "exActivities = [\<lparr>activityId = ''80010190;entityType=Attraction'',
      schedules = Some [\<lparr>rawDate = 100, startTime = 540, endTime = 1080, rawType = ''Operating''\<rparr>]\<rparr>]"

definition exEntry :: "LiveWaitTime option \<Rightarrow> LiveEntry" where
  "exEntry w = \<lparr>ride_id = Some ''80010190;entityType=Attraction'', ride_name = Some ''Ride'',
      ride_type = Some ''Attraction'', ride_waitTime = w\<rparr>"

definition exWaitReply :: "LiveEntry list \<Rightarrow> WaitData reply" where
  "exWaitReply es = \<lparr>latency = 200, netError = None, statusCode = 200, correlationHeader = None,
      body = Obj \<lparr>entries = Some es\<rparr>\<rparr>"

definition exUpstream :: "int \<Rightarrow> Activity list option \<Rightarrow> LiveEntry list \<Rightarrow> upstream" where
  "exUpstream e acts es = \<lparr>tokenReply = exTokenReply e, scheduleReply = exScheduleReply acts,
      waitReply = exWaitReply es\<rparr>"

text \<open>A live status object of a running ride.\<close>

definition exOperating :: LiveWaitTime where
  "exOperating = \<lparr>postedWaitMinutes = Some 15, status = Some ''Operating'',
      fastPass = Some \<lparr>available = Some True\<rparr>\<rparr>"

text \<open>The state after the example park has refreshed its schedule cache.\<close>

definition exLoaded :: state where
  "exLoaded = snd (CacheScheduleData exCfg (exUpstream 3600 (Some exActivities) []) exStale)"

text \<open>Yesterday's schedule runs from 20:00 to 02:00 of today (day 100), today's from 09:00
  to 18:00.\<close>

definition exSpill :: "DayWindow list" where
  "exSpill =
     [\<lparr>date = Some 99, openingTime = momentOfDateTime 99 1200,
       closingTime = momentOfDateTime 100 120, windowType = ''Operating'', special = Some []\<rparr>,
      \<lparr>date = Some 100, openingTime = momentOfDateTime 100 540,
       closingTime = momentOfDateTime 100 1080, windowType = ''Operating'', special = Some []\<rparr>]"

text \<open>Yesterday's schedule, and today's (09:00 to 18:00 of day 100) after an earlier query
  has deleted its \<open>date\<close>.\<close>

definition exOpening :: "DayWindow list" where
  "exOpening =
     [\<lparr>date = Some 99, openingTime = momentOfDateTime 99 540,
       closingTime = momentOfDateTime 99 1080, windowType = ''Operating'', special = Some []\<rparr>,
      \<lparr>date = None, openingTime = momentOfDateTime 100 540,
       closingTime = momentOfDateTime 100 1080, windowType = ''Operating'', special = Some []\<rparr>]"

text \<open>The same two schedules as the parser stores them, each with its date.\<close>

definition exDated :: "DayWindow list" where
  "exDated =
     [\<lparr>date = Some 99, openingTime = momentOfDateTime 99 540,
       closingTime = momentOfDateTime 99 1080, windowType = ''Operating'', special = Some []\<rparr>,
      \<lparr>date = Some 100, openingTime = momentOfDateTime 100 540,
       closingTime = momentOfDateTime 100 1080, windowType = ''Operating'', special = Some []\<rparr>]"

text \<open>A cache whose entry for the resort lists these two objects for the ride.\<close>

definition exCache :: "string \<rightharpoonup> CacheEntry" where
  "exCache = [''dlp'' \<mapsto> \<lparr>expires = momentOfDateTime 100 600, data = [''80010190'' \<mapsto> [0, 1]]\<rparr>]"

text \<open>A standard entry, 09:00 to 18:00, for a given date.\<close>

definition exDay :: "day \<Rightarrow> RawEntry" where
  "exDay d = \<lparr>rawDate = d, startTime = 540, endTime = 1080, rawType = ''Operating''\<rparr>"

section \<open>Describing the order of a parsed schedule\<close>

text \<open>The elements of a list in the order of their first occurrence.\<close>

fun firstOccurrences :: "'a list \<Rightarrow> 'a list" where
  "firstOccurrences [] = []"
| "firstOccurrences (d # ds) = d # firstOccurrences (filter (\<lambda>x. x \<noteq> d) ds)"

text \<open>The dates of the standard entries of a payload that fall in the range of days
  \<open>[today, lastDay]\<close>, in payload order.\<close>

definition standardDates :: "day \<Rightarrow> day \<Rightarrow> RawEntry list \<Rightarrow> day list" where
  "standardDates today lastDay raw =
     map rawDate (filter (\<lambda>t. rawType t \<in> set openingTypes
                              \<and> today \<le> rawDate t \<and> rawDate t \<le> lastDay) raw)"

text \<open>The keys of an object after assigning to the keys \<open>ds\<close> in turn.\<close>

fun insertionOrder :: "'a list \<Rightarrow> 'a list \<Rightarrow> 'a list" where
  "insertionOrder ks [] = ks"
| "insertionOrder ks (d # ds) = insertionOrder (if d \<in> set ks then ks else ks @ [d]) ds"

text \<open>Every object of \<open>timesObj\<close> carries its key as \<open>date\<close>.\<close>

definition dated :: "(day \<times> DayWindow) list \<Rightarrow> bool" where
  "dated kvs = (\<forall>(k, w) \<in> set kvs. date w = Some k)"

section \<open>Describing the data of a parsed payload\<close>

text \<open>The schedule entries the payload gives for a cleaned id: those of the last activity with
  that id, unless that activity has no schedule list, in which case nothing is stored for
  it and an earlier activity's entries stay.\<close>

fun lastSchedule :: "string \<Rightarrow> Activity list \<Rightarrow> RawEntry list option" where
  "lastSchedule k [] = None"
| "lastSchedule k (sched # rest) =
     (case lastSchedule k rest of
        Some raw \<Rightarrow> Some raw
      | None \<Rightarrow> if CleanRideID (activityId sched) = k then schedules sched else None)"

section \<open>Counting requests\<close>

text \<open>The number of schedule requests sent upstream so far.\<close>

definition scheduleFetches :: "state \<Rightarrow> nat" where
  "scheduleFetches st = length (filter (\<lambda>q. target q = ScheduleURL) (requests st))"

section \<open>What the network layer leaves alone\<close>

lemma FetchAccessToken_state:
  "FetchAccessToken r st = (res, st') \<Longrightarrow>
     st' = MakeNetworkRequest \<lparr>target = TokenURL, bearer = None\<rparr> r st"
  by (auto simp: FetchAccessToken_def Let_def split: json.splits if_splits)

lemma GetAccessToken_state:
  "\<exists>tk. snd (GetAccessToken r st) = st\<lparr>accessToken := tk\<rparr>
      \<or> snd (GetAccessToken r st) =
           (MakeNetworkRequest \<lparr>target = TokenURL, bearer = None\<rparr> r st)\<lparr>accessToken := tk\<rparr>"
proof -
  define st0 where "st0 =
    (case accessToken st of
       None \<Rightarrow> st
     | Some t \<Rightarrow> if tokenExpires t \<le> clock st then st\<lparr>accessToken := None\<rparr> else st)"
  have s0: "st0 = st\<lparr>accessToken := accessToken st0\<rparr>"
    by (simp add: st0_def split: option.splits)
  have g: "GetAccessToken r st =
    (case accessToken st0 of
       Some t \<Rightarrow> (Inr (token t), st0)
     | None \<Rightarrow>
         (case FetchAccessToken r st0 of
            (Inl err, st') \<Rightarrow> (Inl err, st')
          | (Inr (tok, expiry), st') \<Rightarrow>
              (Inr tok,
               st'\<lparr>accessToken := Some \<lparr>token = tok, tokenExpires = expiry, correlation = None\<rparr>\<rparr>)))"
    by (simp only: GetAccessToken_def st0_def Let_def)
  show ?thesis
  proof (cases "accessToken st0")
    case (Some t)
    then have "snd (GetAccessToken r st) = st0" using g by simp
    then show ?thesis using s0 by metis
  next
    case None
    obtain res st' where f: "FetchAccessToken r st0 = (res, st')"
      by (cases "FetchAccessToken r st0") auto
    have m: "st' = MakeNetworkRequest \<lparr>target = TokenURL, bearer = None\<rparr> r st0"
      using FetchAccessToken_state [OF f] .
    have m2: "MakeNetworkRequest \<lparr>target = TokenURL, bearer = None\<rparr> r st0
       = (MakeNetworkRequest \<lparr>target = TokenURL, bearer = None\<rparr> r st)\<lparr>accessToken := accessToken st0\<rparr>"
      by (subst s0) (simp add: MakeNetworkRequest_def)
    show ?thesis
    proof (cases res)
      case (Inl err)
      then have "snd (GetAccessToken r st) = st'" using g None f by simp
      then show ?thesis using m m2 by metis
    next
      case (Inr p)
      obtain tok expiry where p: "p = (tok, expiry)" by (cases p) auto
      have "snd (GetAccessToken r st) =
         st'\<lparr>accessToken := Some \<lparr>token = tok, tokenExpires = expiry, correlation = None\<rparr>\<rparr>"
        using g None f Inr p by simp
      then have "snd (GetAccessToken r st) =
         (MakeNetworkRequest \<lparr>target = TokenURL, bearer = None\<rparr> r st)
            \<lparr>accessToken := Some \<lparr>token = tok, tokenExpires = expiry, correlation = None\<rparr>\<rparr>"
        using m m2 by simp
      then show ?thesis by metis
    qed
  qed
qed

lemma GetAccessToken_scheduleCache:
  "scheduleCache (snd (GetAccessToken r st)) = scheduleCache st"
  using GetAccessToken_state [of r st] by (auto simp: MakeNetworkRequest_def)

lemma GetAccessToken_objects:
  "objects (snd (GetAccessToken r st)) = objects st"
  using GetAccessToken_state [of r st] by (auto simp: MakeNetworkRequest_def)

lemma GetAccessToken_clock:
  "clock st \<le> clock (snd (GetAccessToken r st))"
  using GetAccessToken_state [of r st] by (auto simp: MakeNetworkRequest_def)

lemma GetAccessToken_fetches:
  "scheduleFetches (snd (GetAccessToken r st)) = scheduleFetches st"
  using GetAccessToken_state [of r st] by (auto simp: MakeNetworkRequest_def scheduleFetches_def)

text \<open>FetchURL: after the token, one request, and possibly the correlation id.\<close>

lemma FetchURL_state:
  "\<exists>tk. snd (FetchURL u tr r st) = snd (GetAccessToken tr st)
      \<or> snd (FetchURL u tr r st) =
           (MakeNetworkRequest
              \<lparr>target = u, bearer = map_option token (accessToken (snd (GetAccessToken tr st)))\<rparr> r
              (snd (GetAccessToken tr st)))\<lparr>accessToken := tk\<rparr>"
proof -
  obtain res st1 where g: "GetAccessToken tr st = (res, st1)"
    by (cases "GetAccessToken tr st") auto
  define st2 where "st2 = MakeNetworkRequest \<lparr>target = u, bearer = map_option token (accessToken st1)\<rparr> r st1"
  define st3 where "st3 = (case accessToken st2 of
                       Some t \<Rightarrow>
                         if truthyString (correlationHeader r)
                         then st2\<lparr>accessToken := Some (t\<lparr>correlation := correlationHeader r\<rparr>)\<rparr>
                         else st2
                     | None \<Rightarrow> st2)"
  have s3: "st3 = st2\<lparr>accessToken := accessToken st3\<rparr>"
    by (simp add: st3_def split: option.splits)
  show ?thesis
  proof (cases res)
    case (Inl err)
    then have "snd (FetchURL u tr r st) = st1" using g by (simp add: FetchURL_def)
    then show ?thesis using g by simp
  next
    case (Inr tok)
    have "FetchURL u tr r st =
        (if netError r \<noteq> None then (Inl (Reported ''Error making API request''), st3)
         else (case body r of
                 InvalidJSON \<Rightarrow> (Inl (Reported ''Invalid JSON data returned by API''), st3)
               | Falsy \<Rightarrow> (Inr None, st3)
               | Obj d \<Rightarrow> (Inr (Some d), st3)))"
      unfolding FetchURL_def g Inr st3_def st2_def
      by (simp only: Let_def prod.case sum.case)
    then have "snd (FetchURL u tr r st) = st3"
      by (simp split: json.splits)
    then show ?thesis using s3 g st2_def by (metis snd_conv)
  qed
qed

lemma FetchURL_scheduleCache:
  "scheduleCache (snd (FetchURL u tr r st)) = scheduleCache st"
  using FetchURL_state [of u tr r st] GetAccessToken_scheduleCache [of tr st]
  by (auto simp: MakeNetworkRequest_def)

lemma FetchURL_objects:
  "objects (snd (FetchURL u tr r st)) = objects st"
  using FetchURL_state [of u tr r st] GetAccessToken_objects [of tr st]
  by (auto simp: MakeNetworkRequest_def)

lemma FetchURL_clock:
  "clock st \<le> clock (snd (FetchURL u tr r st))"
  using FetchURL_state [of u tr r st] GetAccessToken_clock [of st tr]
  by (auto simp: MakeNetworkRequest_def)

lemma stale_later:
  assumes "\<not> cacheFresh cfg st" and "scheduleCache st' = scheduleCache st"
    and "clock st \<le> clock st'"
  shows "\<not> cacheFresh cfg st'"
  using assms by (auto simp: cacheFresh_def split: option.splits)

lemma day_span:
  "startOf (Some Day) t = momentOfDate (formatDate t)
   \<and> endOf (Some Day) t = momentOfDate (formatDate t) + dayMs - 1
   \<and> startOf (Some Day) t \<le> t \<and> t \<le> endOf (Some Day) t"
proof -
  have a: "t div 86400000 * 86400000 + t mod 86400000 = t" by simp
  have b: "0 \<le> t mod 86400000" "t mod 86400000 < 86400000" by simp_all
  have "t div 86400000 * 86400000 \<le> t" "t \<le> t div 86400000 * 86400000 + 86400000 - 1"
    using a b by linarith+
  then show ?thesis
    by (simp add: momentOfDate_def formatDate_def dayMs_def)
qed

section \<open>Counting schedule requests\<close>

lemma FetchURL_fetches:
  assumes "fst (GetAccessToken tr st) = Inr tok"
  shows "scheduleFetches (snd (FetchURL ScheduleURL tr r st)) = scheduleFetches st + 1"
proof -
  obtain st1 where g: "GetAccessToken tr st = (Inr tok, st1)"
    using assms by (cases "GetAccessToken tr st") auto
  have a: "scheduleFetches st1 = scheduleFetches st"
    using GetAccessToken_fetches [of tr st] g by simp
  define st2 where "st2 = MakeNetworkRequest \<lparr>target = ScheduleURL, bearer = map_option token (accessToken st1)\<rparr> r st1"
  have b: "scheduleFetches st2 = scheduleFetches st1 + 1"
    by (simp add: st2_def MakeNetworkRequest_def scheduleFetches_def)
  have "requests (snd (FetchURL ScheduleURL tr r st)) = requests st2"
    using g by (simp add: FetchURL_def Let_def st2_def split: option.splits json.splits)
  then show ?thesis using a b by (simp add: scheduleFetches_def)
qed

lemma ParseScheduleData_requests:
  "requests (snd (ParseScheduleData cfg d s e st)) = requests st"
  by (simp add: ParseScheduleData_def Let_def split: option.splits prod.splits)

lemma stale_fetches:
  assumes "\<not> cacheFresh cfg st" and "fst (GetAccessToken (tokenReply up) st) = Inr tok"
  shows "scheduleFetches (snd (CacheScheduleData cfg up st)) = scheduleFetches st + 1"
proof -
  let ?f = "FetchURL ScheduleURL (tokenReply up) (scheduleReply up) st"
  let ?s = "startOf (Some Day) (clock st)"
  let ?e = "endOf (Some Day) (addDays (int (scheduleMaxDates cfg)) (clock st))"
  have a: "scheduleFetches (snd ?f) = scheduleFetches st + 1"
    using FetchURL_fetches [OF assms(2)] by simp
  have b: "scheduleFetches (snd (ParseScheduleData cfg d ?s ?e st')) = scheduleFetches st'" for d st'
    using ParseScheduleData_requests [of cfg d ?s ?e st'] by (simp add: scheduleFetches_def)
  obtain res st1 where f: "?f = (res, st1)" by (cases ?f) auto
  then have c: "scheduleFetches st1 = scheduleFetches st + 1" using a by simp
  show ?thesis
  proof (cases res)
    case (Inl err)
    with f c assms(1) show ?thesis by (simp add: CacheScheduleData_def Let_def)
  next
    case (Inr v)
    show ?thesis
    proof (cases v)
      case None
      with Inr f c assms(1) show ?thesis by (simp add: CacheScheduleData_def Let_def)
    next
      case (Some d)
      obtain r2 st2 where p: "ParseScheduleData cfg d ?s ?e st1 = (r2, st2)"
        by (cases "ParseScheduleData cfg d ?s ?e st1") auto
      have "scheduleFetches st2 = scheduleFetches st1"
        using b [of d st1] p by simp
      with Some Inr f c assms(1) p show ?thesis
        by (simp add: CacheScheduleData_def Let_def split: sum.splits)
    qed
  qed
qed

lemma refresh_result:
  assumes "\<not> cacheFresh cfg st"
    and "FetchURL ScheduleURL (tokenReply up) (scheduleReply up) st = (Inr (Some d), st1)"
    and "activities d = Some acts"
  shows "CacheScheduleData cfg up st =
     (Inr (),
      st1\<lparr>objects := fst (parseActivities (park_timezone cfg) (startOf (Some Day) (clock st))
                 (endOf (Some Day) (addDays (int (scheduleMaxDates cfg)) (clock st)))
                 acts (objects st1) Map.empty),
          scheduleCache := (scheduleCache st1)(resort_id cfg \<mapsto>
             \<lparr>expires = clock st1 + 1000 * 60 * 60 * 12,
              data = snd (parseActivities (park_timezone cfg) (startOf (Some Day) (clock st))
                 (endOf (Some Day) (addDays (int (scheduleMaxDates cfg)) (clock st)))
                 acts (objects st1) Map.empty)\<rparr>)\<rparr>)"
  using assms by (simp add: CacheScheduleData_def ParseScheduleData_def Let_def split: prod.splits)

section \<open>The loop body of GetWaitTimes, case by case\<close>




section \<open>The running example, evaluated\<close>

lemmas time_defs = momentOfDateTime_def momentOfDate_def dayMs_def formatDate_def
  momentTz_def addDayTz_def fixedZone_def
  isBefore_def isAfter_def isSameOrBefore_def isBetween_def addDays_def

lemma ex_parseTimes:
  "parseTimes fixedZone (momentOfDate 100) (momentOfDate 101 + dayMs - 1)
      [\<lparr>rawDate = 100, startTime = 540, endTime = 1080, rawType = ''Operating''\<rparr>]
   = [\<lparr>date = Some 100, openingTime = momentOfDateTime 100 540,
        closingTime = momentOfDateTime 100 1080, windowType = ''Operating'', special = Some []\<rparr>,
      \<lparr>date = Some 101, openingTime = momentOfDate 101,
        closingTime = momentOfDate 101, windowType = ''Closed'', special = None\<rparr>]"
  by (simp add: parseTimes_def standardStep_def specialStep_def fillStep_def objGet_def
      openingTypes_def ParseScheduleEntry_def Let_def time_defs fillMissing.simps)

lemma ex_fetch:
  "FetchURL ScheduleURL (exTokenReply 3600) (exScheduleReply (Some exActivities)) exStale
   = (Inr (Some \<lparr>activities = Some exActivities\<rparr>),
      \<lparr>clock = momentOfDateTime 100 600 + 420, objects = [exWindow],
       scheduleCache = [''dlp'' \<mapsto> \<lparr>expires = momentOfDateTime 100 0, data = [''80010190'' \<mapsto> [0]]\<rparr>],
       accessToken = Some \<lparr>token = ''abc'', tokenExpires = momentOfDateTime 100 600 + 120 + 3570000, correlation = None\<rparr>,
       requests = [\<lparr>target = TokenURL, bearer = None\<rparr>, \<lparr>target = ScheduleURL, bearer = Some ''abc''\<rparr>]\<rparr>)"
  by (simp add: FetchURL_def GetAccessToken_def FetchAccessToken_def MakeNetworkRequest_def Let_def
     truthyString_def truthyNumber_def exTokenReply_def exScheduleReply_def exStale_def)

lemma ex_stale: "\<not> cacheFresh exCfg exStale"
  by (simp add: cacheFresh_def exCfg_def exStale_def momentOfDateTime_def dayMs_def)

lemma ex_range:
  "startOf (Some Day) (clock exStale) = momentOfDate 100"
  "endOf (Some Day) (addDays (int (scheduleMaxDates exCfg)) (clock exStale)) = momentOfDate 101 + dayMs - 1"
  by (simp_all add: exStale_def exCfg_def time_defs)

lemma ex_loaded:
  "exLoaded =
      \<lparr>clock = momentOfDateTime 100 600 + 420,
       objects = [exWindow,
         \<lparr>date = Some 100, openingTime = momentOfDateTime 100 540,
           closingTime = momentOfDateTime 100 1080, windowType = ''Operating'', special = Some []\<rparr>,
         \<lparr>date = Some 101, openingTime = momentOfDate 101,
           closingTime = momentOfDate 101, windowType = ''Closed'', special = None\<rparr>],
       scheduleCache = [''dlp'' \<mapsto> \<lparr>expires = momentOfDateTime 100 600 + 420 + 43200000,
                                      data = [''80010190'' \<mapsto> [1, 2]]\<rparr>],
       accessToken = Some \<lparr>token = ''abc'', tokenExpires = momentOfDateTime 100 600 + 120 + 3570000, correlation = None\<rparr>,
       requests = [\<lparr>target = TokenURL, bearer = None\<rparr>, \<lparr>target = ScheduleURL, bearer = Some ''abc''\<rparr>]\<rparr>"
proof -
  have p: "parseActivities fixedZone (momentOfDate 100) (momentOfDate 101 + dayMs - 1) exActivities [exWindow] Map.empty
    = ([exWindow,
         \<lparr>date = Some 100, openingTime = momentOfDateTime 100 540,
           closingTime = momentOfDateTime 100 1080, windowType = ''Operating'', special = Some []\<rparr>,
         \<lparr>date = Some 101, openingTime = momentOfDate 101,
           closingTime = momentOfDate 101, windowType = ''Closed'', special = None\<rparr>],
       [''80010190'' \<mapsto> [1, 2]])"
    by (simp add: exActivities_def ex_parseTimes allocAll_def CleanRideID_def Let_def upt_rec numeral_2_eq_2)
  have f: "FetchURL ScheduleURL (tokenReply (exUpstream 3600 (Some exActivities) []))
             (scheduleReply (exUpstream 3600 (Some exActivities) [])) exStale = 
      (Inr (Some \<lparr>activities = Some exActivities\<rparr>),
      \<lparr>clock = momentOfDateTime 100 600 + 420, objects = [exWindow],
       scheduleCache = [''dlp'' \<mapsto> \<lparr>expires = momentOfDateTime 100 0, data = [''80010190'' \<mapsto> [0]]\<rparr>],
       accessToken = Some \<lparr>token = ''abc'', tokenExpires = momentOfDateTime 100 600 + 120 + 3570000, correlation = None\<rparr>,
       requests = [\<lparr>target = TokenURL, bearer = None\<rparr>, \<lparr>target = ScheduleURL, bearer = Some ''abc''\<rparr>]\<rparr>)"
    using ex_fetch by (simp add: exUpstream_def)
  have a: "activities \<lparr>activities = Some exActivities\<rparr> = Some exActivities" by simp
  show ?thesis
    unfolding exLoaded_def refresh_result [OF ex_stale f a] ex_range
    by (simp add: p exCfg_def)
qed

lemma ex_fresh: "cacheFresh exCfg exLoaded"
  by (simp add: ex_loaded cacheFresh_def exCfg_def)

lemma ex_wait_fetch:
  "FetchURL WaitTimesURL (exTokenReply 3600) (exWaitReply es) exLoaded
   = (Inr (Some \<lparr>entries = Some es\<rparr>),
      exLoaded\<lparr>clock := momentOfDateTime 100 600 + 620,
         requests := [\<lparr>target = TokenURL, bearer = None\<rparr>, \<lparr>target = ScheduleURL, bearer = Some ''abc''\<rparr>,
                      \<lparr>target = WaitTimesURL, bearer = Some ''abc''\<rparr>]\<rparr>)"
  by (simp add: ex_loaded FetchURL_def GetAccessToken_def MakeNetworkRequest_def Let_def
     truthyString_def exWaitReply_def momentOfDateTime_def dayMs_def)

lemma ex_select:
  "selectSchedule (objects exLoaded) (momentOfDateTime 100 600 + 620) 100 [1, 2] = Some 1"
  by (simp add: ex_loaded selectSchedule_def exWindow_def time_defs numeral_2_eq_2)

lemma ex_query_steps:
  "GetWaitTimes exCfg (exUpstream 3600 (Some exActivities) es) exLoaded
   = (fst (buildRides exCfg (scheduleCache exLoaded) (momentOfDateTime 100 600 + 620) 100 es []
             (objects exLoaded)),
      exLoaded\<lparr>clock := momentOfDateTime 100 600 + 620,
         objects := snd (buildRides exCfg (scheduleCache exLoaded)
             (momentOfDateTime 100 600 + 620) 100 es [] (objects exLoaded)),
         requests := [\<lparr>target = TokenURL, bearer = None\<rparr>,
                      \<lparr>target = ScheduleURL, bearer = Some ''abc''\<rparr>,
                      \<lparr>target = WaitTimesURL, bearer = Some ''abc''\<rparr>]\<rparr>)"
proof -
  have c: "CacheScheduleData exCfg (exUpstream 3600 (Some exActivities) es) exLoaded
     = (Inr (), exLoaded)"
    using ex_fresh by (simp add: CacheScheduleData_def)
  have d: "formatDate (momentOfDateTime 100 600 + 620) = 100"
    by (simp add: time_defs)
  have w: "FetchURL WaitTimesURL
        (tokenReply (exUpstream 3600 (Some exActivities) es))
        (waitReply (exUpstream 3600 (Some exActivities) es)) exLoaded
      = (Inr (Some \<lparr>entries = Some es\<rparr>),
         exLoaded\<lparr>clock := momentOfDateTime 100 600 + 620,
           requests := [\<lparr>target = TokenURL, bearer = None\<rparr>,
                        \<lparr>target = ScheduleURL, bearer = Some ''abc''\<rparr>,
                        \<lparr>target = WaitTimesURL, bearer = Some ''abc''\<rparr>]\<rparr>)"
    using ex_wait_fetch [of es] by (simp add: exUpstream_def)
  have p: "park_id exCfg \<noteq> []" "park_region exCfg \<noteq> []"
    by (simp_all add: exCfg_def)
  show ?thesis
    unfolding GetWaitTimes_def
    by (simp add: p c w d case_prod_beta Let_def)
qed

lemma ex_build_cached:
  "buildRide exCfg (scheduleCache exLoaded) (momentOfDateTime 100 600 + 620) 100
      (exEntry (Some exOperating)) (objects exLoaded)
    = (Inr (Some \<lparr>obj_id = ''80010190'', obj_name = ''Ride'', obj_waitTime = 15,
            obj_active = True, obj_status = ''Operating'', obj_fastPass = Some True,
            obj_schedule = Cached 1\<rparr>),
       [exWindow,
           \<lparr>date = None, openingTime = momentOfDateTime 100 540,
             closingTime = momentOfDateTime 100 1080, windowType = ''Operating'', special = Some []\<rparr>,
           \<lparr>date = Some 101, openingTime = momentOfDate 101,
             closingTime = momentOfDate 101, windowType = ''Closed'', special = None\<rparr>])"
  unfolding buildRide_def
  by (simp add: exEntry_def exOperating_def truthyString_def truthyNumber_def CleanRideID_def
      expectedRideStatusStrings_def Let_def ex_loaded exCfg_def deleteDate_def
      selectSchedule_def exWindow_def time_defs numeral_2_eq_2)

section \<open>The scan of the cached array\<close>

lemma scan_schedule_None:
  "snd (scanTimes store timeNow dateToday refs t s) = None \<longleftrightarrow>
     s = None \<and> (\<forall>a\<in>set refs. \<not> isBetween timeNow (openingTime (store ! a)) (closingTime (store ! a)))"
  by (induction refs arbitrary: t s) (auto simp: Let_def)

lemma scan_schedule_Some:
  "snd (scanTimes store timeNow dateToday refs t s) = Some a \<Longrightarrow>
     (a \<in> set refs \<and> isBetween timeNow (openingTime (store ! a)) (closingTime (store ! a)))
     \<or> s = Some a"
  by (induction refs arbitrary: t s) (auto simp: Let_def split: if_splits)

lemma scan_todays_None:
  "fst (scanTimes store timeNow dateToday refs t s) = None \<longleftrightarrow>
     t = None \<and> (\<forall>a\<in>set refs. date (store ! a) \<noteq> Some dateToday)"
  by (induction refs arbitrary: t s) (auto simp: Let_def)

lemma scan_todays_Some:
  "fst (scanTimes store timeNow dateToday refs t s) = Some a \<Longrightarrow>
     (a \<in> set refs \<and> date (store ! a) = Some dateToday) \<or> t = Some a"
  by (induction refs arbitrary: t s) (auto simp: Let_def split: if_splits)

section \<open>The dates of a parsed schedule\<close>

lemma formatDate_momentOfDate [simp]: "formatDate (momentOfDate d) = d"
  by (simp add: formatDate_def momentOfDate_def dayMs_def)

lemma keys_objSet:
  "map fst (objSet kvs k v) = (if k \<in> set (map fst kvs) then map fst kvs else map fst kvs @ [k])"
  by (induction kvs k v rule: objSet.induct) (auto simp: image_iff)

lemma set_objSet: "set (objSet kvs k v) \<subseteq> insert (k, v) (set kvs)"
  by (induction kvs k v rule: objSet.induct) (auto split: if_splits)

lemma map_of_objSet: "map_of (objSet kvs k v) = (map_of kvs)(k \<mapsto> v)"
  by (induction kvs k v rule: objSet.induct) (auto simp: fun_eq_iff)

lemma dated_objSet: "dated kvs \<Longrightarrow> date v = Some k \<Longrightarrow> dated (objSet kvs k v)"
  using set_objSet [of kvs k v] by (auto simp: dated_def)

lemma in_range:
  "isAfter (momentOfDate d) (momentOfDate lastDay + dayMs - 1) = (lastDay < d)"
  "isBefore (momentOfDate d) (momentOfDate today) = (d < today)"
  by (auto simp: isAfter_def isBefore_def momentOfDate_def dayMs_def)

lemma standardStep_keys:
  "map fst (standardStep z (momentOfDate today) (momentOfDate lastDay + dayMs - 1) kvs t) =
     (if rawType t \<in> set openingTypes \<and> today \<le> rawDate t \<and> rawDate t \<le> lastDay
         \<and> rawDate t \<notin> set (map fst kvs)
      then map fst kvs @ [rawDate t] else map fst kvs)"
  by (auto simp: standardStep_def Let_def keys_objSet in_range split: prod.splits)

lemma standardStep_dated:
  "dated kvs \<Longrightarrow> dated (standardStep z s e kvs t)"
  by (auto simp: standardStep_def Let_def split: prod.splits intro!: dated_objSet)

lemma insertionOrder_first:
  "insertionOrder ks ds = ks @ firstOccurrences (filter (\<lambda>d. d \<notin> set ks) ds)"
proof (induction ds arbitrary: ks)
  case Nil
  show ?case by simp
next
  case (Cons d ds)
  show ?case
  proof (cases "d \<in> set ks")
    case True
    then show ?thesis using Cons [of ks] by simp
  next
    case False
    have "filter (\<lambda>x. x \<noteq> d) (filter (\<lambda>x. x \<notin> set ks) ds)
            = filter (\<lambda>x. x \<notin> set (ks @ [d])) ds"
      by (induction ds) auto
    then show ?thesis using False Cons [of "ks @ [d]"] by simp
  qed
qed

lemma addStandard_keys:
  "map fst (addStandard z (momentOfDate today) (momentOfDate lastDay + dayMs - 1) raw kvs) =
     insertionOrder (map fst kvs) (standardDates today lastDay raw)"
proof (induction raw arbitrary: kvs)
  case Nil
  show ?case by (simp add: standardDates_def)
next
  case (Cons t raw)
  show ?case
    using Cons [of "standardStep z (momentOfDate today) (momentOfDate lastDay + dayMs - 1) kvs t"]
      standardStep_keys [of z today lastDay kvs t]
    by (auto simp: standardDates_def)
qed

lemma addStandard_dated:
  "dated kvs \<Longrightarrow> dated (addStandard z s e raw kvs)"
  by (induction raw arbitrary: kvs) (auto simp: standardStep_dated)

lemma specialStep_keys:
  "map fst (specialStep z s e kvs t) = map fst kvs"
proof -
  have "map fst (objSet kvs k v) = map fst kvs" if "map_of kvs k = Some w" for k v w
    using that by (simp add: keys_objSet) (metis map_of_eq_None_iff option.distinct(1) set_map)
  then show ?thesis
    by (auto simp: specialStep_def Let_def objGet_def split: prod.splits option.splits)
qed

lemma specialStep_dated:
  "dated kvs \<Longrightarrow> dated (specialStep z s e kvs t)"
proof -
  assume d: "dated kvs"
  have "dated (objSet kvs k (w\<lparr>special := x\<rparr>))" if "map_of kvs k = Some w" for k w x
  proof -
    from that have "(k, w) \<in> set kvs" by (rule map_of_SomeD)
    then have "date w = Some k" using d by (auto simp: dated_def)
    then show ?thesis using d by (intro dated_objSet) simp_all
  qed
  then show ?thesis using d
    by (auto simp: specialStep_def Let_def objGet_def split: prod.splits option.splits)
qed

lemma addSpecial_keys:
  "map fst (addSpecial z s e raw kvs) = map fst kvs"
  by (induction raw arbitrary: kvs) (auto simp: specialStep_keys)

lemma addSpecial_dated:
  "dated kvs \<Longrightarrow> dated (addSpecial z s e raw kvs)"
  by (induction raw arbitrary: kvs) (auto simp: specialStep_dated)

lemma fillStep_keys:
  assumes "dated kvs"
  shows "map fst (fillStep kvs (momentOfDate d)) =
     (if d \<in> set (map fst kvs) then map fst kvs else map fst kvs @ [d])"
proof (cases "map_of kvs d")
  case None
  then have "d \<notin> set (map fst kvs)" by (simp add: map_of_eq_None_iff)
  then show ?thesis using None by (simp add: fillStep_def objGet_def keys_objSet)
next
  case (Some w)
  then have in_kvs: "(d, w) \<in> set kvs" by (rule map_of_SomeD)
  then have "date w = Some d" using assms by (auto simp: dated_def)
  moreover have "d \<in> set (map fst kvs)" using in_kvs by force
  ultimately show ?thesis using Some by (simp add: fillStep_def objGet_def)
qed

lemma fillStep_dated:
  "dated kvs \<Longrightarrow> dated (fillStep kvs day)"
  by (auto simp: fillStep_def Let_def intro!: dated_objSet)

lemma fillMissing_keys_dated:
  assumes "dated kvs"
  shows "map fst (fillMissing (momentOfDate d) (momentOfDate lastDay + dayMs - 1) kvs) =
           map fst kvs @ filter (\<lambda>x. x \<notin> set (map fst kvs)) [d..lastDay]
         \<and> dated (fillMissing (momentOfDate d) (momentOfDate lastDay + dayMs - 1) kvs)"
  using assms
proof (induction "nat (lastDay + 1 - d)" arbitrary: d kvs)
  case 0
  then have "lastDay < d" by simp
  then have "\<not> isSameOrBefore (momentOfDate d) (momentOfDate lastDay + dayMs - 1)"
    by (simp add: isSameOrBefore_def momentOfDate_def dayMs_def)
  then have "fillMissing (momentOfDate d) (momentOfDate lastDay + dayMs - 1) kvs = kvs"
    by (subst fillMissing.simps) simp
  then show ?case using 0 \<open>lastDay < d\<close> by simp
next
  case (Suc n)
  then have le: "d \<le> lastDay" by simp
  then have c: "isSameOrBefore (momentOfDate d) (momentOfDate lastDay + dayMs - 1)"
    by (simp add: isSameOrBefore_def momentOfDate_def dayMs_def)
  have nx: "addDays 1 (momentOfDate d) = momentOfDate (d + 1)"
    by (simp add: addDays_def momentOfDate_def algebra_simps)
  let ?k = "fillStep kvs (momentOfDate d)"
  have dk: "dated ?k" using Suc.prems by (rule fillStep_dated)
  have n: "n = nat (lastDay + 1 - (d + 1))" using Suc.hyps(2) by simp
  have ih: "map fst (fillMissing (momentOfDate (d + 1)) (momentOfDate lastDay + dayMs - 1) ?k) =
           map fst ?k @ filter (\<lambda>x. x \<notin> set (map fst ?k)) [d + 1..lastDay]
         \<and> dated (fillMissing (momentOfDate (d + 1)) (momentOfDate lastDay + dayMs - 1) ?k)"
    using Suc.hyps(1) [OF n dk] .
  have unf: "fillMissing (momentOfDate d) (momentOfDate lastDay + dayMs - 1) kvs
     = fillMissing (momentOfDate (d + 1)) (momentOfDate lastDay + dayMs - 1) ?k"
    using c nx by (subst fillMissing.simps) simp
  have up: "[d..lastDay] = d # [d + 1..lastDay]" using le by (simp add: upto_rec1)
  have keys: "map fst ?k @ filter (\<lambda>x. x \<notin> set (map fst ?k)) [d + 1..lastDay]
     = map fst kvs @ filter (\<lambda>x. x \<notin> set (map fst kvs)) [d..lastDay]"
  proof (cases "d \<in> set (map fst kvs)")
    case True
    then show ?thesis using fillStep_keys [OF Suc.prems, of d] up by simp
  next
    case False
    have "filter (\<lambda>x. x \<notin> set (map fst kvs @ [d])) [d + 1..lastDay]
        = filter (\<lambda>x. x \<notin> set (map fst kvs)) [d + 1..lastDay]"
      by (rule filter_cong) auto
    then show ?thesis using False fillStep_keys [OF Suc.prems, of d] up by simp
  qed
  show ?case using ih unf keys by simp
qed

lemma dated_dates: "dated kvs \<Longrightarrow> map date (map snd kvs) = map Some (map fst kvs)"
  by (induction kvs) (auto simp: dated_def)

lemma parseTimes_dates:
  "map date (parseTimes z (momentOfDate today) (momentOfDate lastDay + dayMs - 1) raw) =
     map Some (firstOccurrences (standardDates today lastDay raw)
               @ filter (\<lambda>d. d \<notin> set (standardDates today lastDay raw)) [today..lastDay])"
proof -
  let ?s = "momentOfDate today" and ?e = "momentOfDate lastDay + dayMs - 1"
  let ?a = "addStandard z ?s ?e raw []"
  let ?b = "addSpecial z ?s ?e raw ?a"
  have d0: "dated []" by (simp add: dated_def)
  have ka: "map fst ?a = firstOccurrences (standardDates today lastDay raw)"
    using addStandard_keys [of z today lastDay raw "[]"]
    by (simp add: insertionOrder_first)
  have sa: "set (firstOccurrences ds) = set ds" for ds :: "day list"
    by (induction ds rule: firstOccurrences.induct) auto
  have kb: "map fst ?b = map fst ?a" by (rule addSpecial_keys)
  have db: "dated ?b" using d0 by (intro addSpecial_dated addStandard_dated)
  note f = fillMissing_keys_dated [OF db, of today lastDay]
  have k: "map fst (fillMissing ?s ?e ?b) =
      map fst ?b @ filter (\<lambda>x. x \<notin> set (map fst ?b)) [today..lastDay]"
    using f by (rule conjunct1)
  have d: "dated (fillMissing ?s ?e ?b)"
    using f by (rule conjunct2)
  have "map date (parseTimes z ?s ?e raw) = map date (map snd (fillMissing ?s ?e ?b))"
    by (simp only: parseTimes_def Let_def)
  also have "\<dots> = map Some (map fst (fillMissing ?s ?e ?b))"
    by (rule dated_dates [OF d])
  also have "\<dots> = map Some (firstOccurrences (standardDates today lastDay raw)
               @ filter (\<lambda>d. d \<notin> set (standardDates today lastDay raw)) [today..lastDay])"
    unfolding k kb ka by (simp add: sa)
  finally show ?thesis .
qed

lemma query_range:
  "startOf (Some Day) now = momentOfDate (formatDate now)"
  "endOf (Some Day) (addDays (int n) now) = momentOfDate (formatDate now + int n) + dayMs - 1"
proof -
  show "startOf (Some Day) now = momentOfDate (formatDate now)"
    using day_span [of now] by simp
  have "(now + int n * 86400000) div 86400000 = now div 86400000 + int n"
    by simp
  then have "formatDate (addDays (int n) now) = formatDate now + int n"
    by (simp add: formatDate_def addDays_def dayMs_def)
  then show "endOf (Some Day) (addDays (int n) now) = momentOfDate (formatDate now + int n) + dayMs - 1"
    using day_span [of "addDays (int n) now"] by simp
qed

lemma firstOccurrences_distinct: "distinct ds \<Longrightarrow> firstOccurrences ds = ds"
proof (induction ds rule: firstOccurrences.induct)
  case 1
  show ?case by simp
next
  case (2 d ds)
  then have "filter (\<lambda>x. x \<noteq> d) ds = ds" by (auto intro: filter_True)
  with 2 show ?case by simp
qed

lemma set_firstOccurrences: "set (firstOccurrences ds) = set ds"
  by (induction ds rule: firstOccurrences.induct) auto

lemma distinct_firstOccurrences: "distinct (firstOccurrences ds)"
  by (induction ds rule: firstOccurrences.induct) (auto simp: set_firstOccurrences)

text \<open>Every date of the range appears exactly once in the array of an attraction.\<close>

lemma parseTimes_covers_range:
  "\<exists>ds. map date (parseTimes z (startOf (Some Day) now)
                  (endOf (Some Day) (addDays (int n) now)) raw) = map Some ds
        \<and> distinct ds \<and> set ds = {formatDate now .. formatDate now + int n}"
proof -
  let ?S = "standardDates (formatDate now) (formatDate now + int n) raw"
  let ?M = "filter (\<lambda>d. d \<notin> set ?S) [formatDate now .. formatDate now + int n]"
  have a: "map date (parseTimes z (startOf (Some Day) now)
                  (endOf (Some Day) (addDays (int n) now)) raw)
       = map Some (firstOccurrences ?S @ ?M)"
    unfolding query_range by (rule parseTimes_dates)
  have sub: "set ?S \<subseteq> {formatDate now .. formatDate now + int n}"
    by (auto simp: standardDates_def)
  have d: "distinct (firstOccurrences ?S @ ?M)"
    by (auto simp: distinct_firstOccurrences set_firstOccurrences)
  have s: "set (firstOccurrences ?S @ ?M) = {formatDate now .. formatDate now + int n}"
    using sub by (auto simp: set_firstOccurrences)
  show ?thesis using a d s by blast
qed

lemma ex_range2:
  "startOf (Some Day) (momentOfDateTime 100 600) = momentOfDate 100"
  "endOf (Some Day) (addDays (int 1) (momentOfDateTime 100 600)) = momentOfDate 101 + dayMs - 1"
  "formatDate (momentOfDateTime 100 600) = 100"
  by (simp_all add: time_defs)

lemmas parse_defs = parseTimes_def standardStep_def specialStep_def fillStep_def objGet_def
      openingTypes_def ParseScheduleEntry_def Let_def fillMissing.simps

section \<open>What the outer loop of ParseScheduleData stores\<close>

lemma deref_allocAll:
  "map ((!) (store @ ws @ tl2)) [length store ..< length store + length ws] = ws"
  by (rule nth_equalityI) (auto simp: nth_append)

lemma parseActivities_store:
  "\<exists>tl2. fst (parseActivities z s e acts store m) = store @ tl2"
proof (induction acts arbitrary: store m)
  case Nil
  show ?case by simp
next
  case (Cons a acts)
  show ?case
  proof (cases "schedules a")
    case None
    then show ?thesis using Cons [of store m] by simp
  next
    case (Some raw)
    obtain tl2 where "fst (parseActivities z s e acts (store @ parseTimes z s e raw)
        (m(CleanRideID (activityId a) \<mapsto>
           [length store ..< length store + length (parseTimes z s e raw)])))
      = (store @ parseTimes z s e raw) @ tl2"
      using Cons [of "store @ parseTimes z s e raw"] by blast
    then show ?thesis using Some by (simp add: allocAll_def)
  qed
qed

lemma parseActivities_data:
  assumes "\<forall>k refs. m k = Some refs \<longrightarrow> (\<forall>a \<in> set refs. a < length store)"
  shows "map_option (map ((!) (fst (parseActivities z s e acts store m))))
           (snd (parseActivities z s e acts store m) k)
         = (case lastSchedule k acts of
              Some raw \<Rightarrow> Some (parseTimes z s e raw)
            | None \<Rightarrow> map_option (map ((!) store)) (m k))"
  using assms
proof (induction acts arbitrary: store m)
  case Nil
  show ?case by simp
next
  case (Cons a acts)
  show ?case
  proof (cases "schedules a")
    case None
    then show ?thesis using Cons.IH [OF Cons.prems] by (simp split: option.splits)
  next
    case (Some raw)
    let ?ws = "parseTimes z s e raw"
    let ?store = "store @ ?ws"
    let ?refs = "[length store ..< length store + length ?ws]"
    let ?k0 = "CleanRideID (activityId a)"
    let ?m = "m(?k0 \<mapsto> ?refs)"
    let ?R = "parseActivities z s e acts ?store ?m"
    have step: "parseActivities z s e (a # acts) store m = ?R"
      using Some by (simp add: allocAll_def)
    have valid: "\<forall>k refs. ?m k = Some refs \<longrightarrow> (\<forall>a \<in> set refs. a < length ?store)"
    proof (intro allI impI ballI)
      fix k' refs x
      assume h: "?m k' = Some refs" and x: "x \<in> set refs"
      show "x < length ?store"
      proof (cases "k' = ?k0")
        case True
        then show ?thesis using h x by auto
      next
        case False
        then have "m k' = Some refs" using h by simp
        then have "x < length store" using Cons.prems x by blast
        then show ?thesis by simp
      qed
    qed
    note ih = Cons.IH [of ?m ?store, OF valid]
    have L: "(case lastSchedule k (a # acts) of
                Some raw \<Rightarrow> Some (parseTimes z s e raw)
              | None \<Rightarrow> map_option (map ((!) store)) (m k))
           = (case lastSchedule k acts of
                Some raw \<Rightarrow> Some (parseTimes z s e raw)
              | None \<Rightarrow> map_option (map ((!) ?store)) (?m k))"
    proof (cases "lastSchedule k acts")
      case (Some raw')
      then show ?thesis by simp
    next
      case None
      show ?thesis
      proof (cases "?k0 = k")
        case True
        have "map ((!) ?store) ?refs = ?ws"
          using deref_allocAll [of store ?ws "[]"] by simp
        then show ?thesis using None True \<open>schedules a = Some raw\<close> by simp
      next
        case False
        have "map_option (map ((!) ?store)) (m k) = map_option (map ((!) store)) (m k)"
        proof (cases "m k")
          case None
          then show ?thesis by simp
        next
          case (Some refs)
          then have "\<forall>a \<in> set refs. a < length store" using Cons.prems by blast
          then have "map ((!) ?store) refs = map ((!) store) refs"
            by (auto simp: nth_append)
          then show ?thesis using Some by simp
        qed
        then show ?thesis using None False by simp
      qed
    qed
    show ?thesis unfolding step L by (rule ih)
  qed
qed

section \<open>The access token's expiry\<close>

text \<open>
  C7. When a token has to be fetched (none is cached, or the cached one has expired) and
  the token endpoint answers 200 with a JSON object carrying a non-empty \<open>access_token\<close>
  and \<open>expires_in = e\<close>: if \<open>e < 5\<close>, \<open>GetAccessToken\<close> fails with an error and no token is
  cached; otherwise the fetched token is cached with
  \<open>expires = now + max (e - 30) 5 * 1000\<close> milliseconds, \<open>now\<close> being the time the response
  arrived.
\<close>

theorem token_fetch_expiry:
  assumes "netError r = None" and "statusCode r = 200" and "body r = Obj d"
    and "access_token d = Some tok" and "tok \<noteq> []" and "expires_in d = Some e"
    and "\<forall>t. accessToken st = Some t \<longrightarrow> tokenExpires t \<le> clock st"
  shows "(e < 5 \<longrightarrow> (\<exists>err. fst (GetAccessToken r st) = Inl err)
                   \<and> accessToken (snd (GetAccessToken r st)) = None)
       \<and> (5 \<le> e \<longrightarrow> fst (GetAccessToken r st) = Inr tok
                   \<and> accessToken (snd (GetAccessToken r st)) =
                       Some \<lparr>token = tok,
                             tokenExpires = clock st + int (latency r) + max (e - 30) 5 * 1000,
                             correlation = None\<rparr>)"
  using assms
  by (auto simp: GetAccessToken_def FetchAccessToken_def MakeNetworkRequest_def Let_def
      truthyString_def truthyNumber_def split: option.splits)

text \<open>With an expired token in the cache: a token valid for 3600 seconds is cached until
  3570 seconds after the response, which came 120 ms after the call; one valid for 3
  seconds is refused and nothing is cached.\<close>

theorem token_fetch_expiry_witness:
  "map_option tokenExpires (accessToken exExpired) = Some (momentOfDateTime 100 0)
   \<and> momentOfDateTime 100 0 \<le> clock exExpired
   \<and> accessToken (snd (GetAccessToken (exTokenReply 3600) exExpired)) =
     Some \<lparr>token = ''abc'', tokenExpires = clock exExpired + 120 + 3570 * 1000,
           correlation = None\<rparr>
   \<and> fst (GetAccessToken (exTokenReply 3600) exExpired) = Inr ''abc''
   \<and> accessToken (snd (GetAccessToken (exTokenReply 3) exExpired)) = None
   \<and> (\<exists>err. fst (GetAccessToken (exTokenReply 3) exExpired) = Inl err)"
proof -
  have h: "\<forall>t. accessToken exExpired = Some t \<longrightarrow> tokenExpires t \<le> clock exExpired"
    by (simp add: exExpired_def exStale_def momentOfDateTime_def dayMs_def)
  have a: "accessToken (snd (GetAccessToken (exTokenReply 3600) exExpired)) =
     Some \<lparr>token = ''abc'', tokenExpires = clock exExpired + 120 + 3570 * 1000,
           correlation = None\<rparr>
   \<and> fst (GetAccessToken (exTokenReply 3600) exExpired) = Inr ''abc''"
    using h token_fetch_expiry [of "exTokenReply 3600"
          "\<lparr>access_token = Some ''abc'', expires_in = Some 3600\<rparr>" "''abc''" 3600 exExpired]
    by (simp add: exTokenReply_def)
  have b: "accessToken (snd (GetAccessToken (exTokenReply 3) exExpired)) = None
   \<and> (\<exists>err. fst (GetAccessToken (exTokenReply 3) exExpired) = Inl err)"
    using h token_fetch_expiry [of "exTokenReply 3"
          "\<lparr>access_token = Some ''abc'', expires_in = Some 3\<rparr>" "''abc''" 3 exExpired]
    by (simp add: exTokenReply_def)
  have c: "map_option tokenExpires (accessToken exExpired) = Some (momentOfDateTime 100 0)
   \<and> momentOfDateTime 100 0 \<le> clock exExpired"
    by (simp add: exExpired_def exStale_def momentOfDateTime_def dayMs_def)
  show ?thesis using a b c by blast
qed

section \<open>A payload without activities\<close>

text \<open>
  C8. When the cache is not fresh and the schedule payload fetched has no \<open>activities\<close>,
  \<open>ParseScheduleData\<close> reports an error and changes nothing, \<open>CacheScheduleData\<close> hands the
  error to its caller, and the schedule cache (data and \<open>expires\<close> of every entry) and the
  schedule objects are what they were; the cache is still not fresh, so any later call,
  once it has a token, sends the schedule request again.
\<close>

theorem missing_activities_keeps_cache:
  assumes "\<not> cacheFresh cfg st"
    and "FetchURL ScheduleURL (tokenReply up) (scheduleReply up) st = (Inr (Some d), st1)"
    and "activities d = None"
  shows "ParseScheduleData cfg d startDate endDate st1
           = (Inl (Reported ''No schedule data returned''), st1)
       \<and> CacheScheduleData cfg up st = (Inl (Reported ''No schedule data returned''), st1)
       \<and> scheduleCache st1 = scheduleCache st
       \<and> objects st1 = objects st
       \<and> \<not> cacheFresh cfg st1
       \<and> (\<forall>up' st' tok. scheduleCache st' = scheduleCache st1 \<and> clock st1 \<le> clock st'
              \<and> fst (GetAccessToken (tokenReply up') st') = Inr tok
            \<longrightarrow> scheduleFetches (snd (CacheScheduleData cfg up' st')) = scheduleFetches st' + 1)"
proof -
  have 0: "ParseScheduleData cfg d sd ed st1 = (Inl (Reported ''No schedule data returned''), st1)"
    for sd ed
    using assms(3) by (simp add: ParseScheduleData_def)
  have 1: "CacheScheduleData cfg up st = (Inl (Reported ''No schedule data returned''), st1)"
    using assms(1,2) 0 by (simp add: CacheScheduleData_def Let_def)
  have 2: "scheduleCache st1 = scheduleCache st"
    using FetchURL_scheduleCache [of ScheduleURL "tokenReply up" "scheduleReply up" st] assms(2)
    by simp
  have 3: "objects st1 = objects st"
    using FetchURL_objects [of ScheduleURL "tokenReply up" "scheduleReply up" st] assms(2)
    by simp
  have 4: "clock st \<le> clock st1"
    using FetchURL_clock [of st ScheduleURL "tokenReply up" "scheduleReply up"] assms(2)
    by simp
  have 5: "\<not> cacheFresh cfg st1"
    using stale_later [OF assms(1) 2 4] .
  have 6: "scheduleFetches (snd (CacheScheduleData cfg up' st')) = scheduleFetches st' + 1"
    if "scheduleCache st' = scheduleCache st1" "clock st1 \<le> clock st'"
       "fst (GetAccessToken (tokenReply up') st') = Inr tok" for up' st' tok
    using stale_fetches [OF stale_later [OF 5 that(1) that(2)] that(3)] .
  show ?thesis using 0 1 2 3 5 6 by blast
qed

text \<open>The example park with a stale snapshot in the cache and a payload without
  \<open>activities\<close>: the snapshot stays, and a second call fetches again.\<close>

lemma exFetch_no_activities:
  "fst (FetchURL ScheduleURL (exTokenReply 3600) (exScheduleReply None) exStale)
     = Inr (Some \<lparr>activities = None\<rparr>)"
  by (simp add: FetchURL_def GetAccessToken_def FetchAccessToken_def MakeNetworkRequest_def Let_def
     truthyString_def truthyNumber_def exTokenReply_def exScheduleReply_def exStale_def)

theorem missing_activities_keeps_cache_witness:
  "\<not> cacheFresh exCfg exStale
   \<and> fst (CacheScheduleData exCfg (exUpstream 3600 None []) exStale)
       = Inl (Reported ''No schedule data returned'')
   \<and> scheduleCache (snd (CacheScheduleData exCfg (exUpstream 3600 None []) exStale))
       = scheduleCache exStale
   \<and> objects (snd (CacheScheduleData exCfg (exUpstream 3600 None []) exStale)) = objects exStale
   \<and> \<not> cacheFresh exCfg (snd (CacheScheduleData exCfg (exUpstream 3600 None []) exStale))
   \<and> scheduleFetches (snd (CacheScheduleData exCfg (exUpstream 3600 None [])
         (snd (CacheScheduleData exCfg (exUpstream 3600 None []) exStale))))
       = scheduleFetches (snd (CacheScheduleData exCfg (exUpstream 3600 None []) exStale)) + 1"
proof -
  let ?up = "exUpstream 3600 None []"
  let ?f = "FetchURL ScheduleURL (tokenReply ?up) (scheduleReply ?up) exStale"
  let ?st1 = "snd (CacheScheduleData exCfg ?up exStale)"
  have h1: "\<not> cacheFresh exCfg exStale"
    by (simp add: cacheFresh_def exCfg_def exStale_def momentOfDateTime_def dayMs_def)
  have h2: "?f = (Inr (Some \<lparr>activities = None\<rparr>), snd ?f)"
    using exFetch_no_activities by (simp add: exUpstream_def prod_eq_iff)
  have h3: "activities \<lparr>activities = None\<rparr> = None" by simp
  note t = missing_activities_keeps_cache [OF h1 h2 h3]
  have s1: "?st1 = snd ?f" using t by simp
  have tok: "fst (GetAccessToken (tokenReply ?up) (snd ?f)) = Inr ''abc''"
    by (simp add: FetchURL_def GetAccessToken_def FetchAccessToken_def MakeNetworkRequest_def
        Let_def truthyString_def truthyNumber_def exTokenReply_def exScheduleReply_def
        exStale_def exUpstream_def)
  have "scheduleFetches (snd (CacheScheduleData exCfg ?up (snd ?f))) = scheduleFetches (snd ?f) + 1"
    using t tok by blast
  then show ?thesis using h1 t s1 by simp
qed

section \<open>Freshness of the schedule cache\<close>

text \<open>
  C9. While the resort's cache entry has not expired (\<open>expires >= now\<close>),
  \<open>CacheScheduleData\<close> returns without changing the state: no request is sent, in
  particular no schedule request, and the cache is unchanged. A successful refresh (the
  entry is missing or expired, the payload arrives and has \<open>activities\<close>) installs a new
  entry: its \<open>expires\<close> is the time of the refresh plus 12 hours, and its \<open>data\<close> maps every
  cleaned id to the schedule objects parsed from the payload's entries for that id (and
  nothing else). A second call, right after it or at any time up to the new \<open>expires\<close>,
  changes nothing.
\<close>

theorem fresh_cache_no_fetch:
  shows "(\<forall>c. scheduleCache st (resort_id cfg) = Some c \<and> clock st \<le> expires c \<longrightarrow>
            CacheScheduleData cfg up st = (Inr (), st)
            \<and> requests (snd (CacheScheduleData cfg up st)) = requests st
            \<and> scheduleFetches (snd (CacheScheduleData cfg up st)) = scheduleFetches st
            \<and> scheduleCache (snd (CacheScheduleData cfg up st)) = scheduleCache st)
       \<and> ((\<forall>c. scheduleCache st (resort_id cfg) = Some c \<longrightarrow> expires c < clock st)
            \<and> FetchURL ScheduleURL (tokenReply up) (scheduleReply up) st = (Inr (Some d), st1)
            \<and> activities d = Some acts
          \<longrightarrow> fst (CacheScheduleData cfg up st) = Inr ()
              \<and> (\<exists>c. scheduleCache (snd (CacheScheduleData cfg up st)) (resort_id cfg) = Some c
                     \<and> expires c = clock st1 + 12 * 60 * 60 * 1000
                     \<and> (\<forall>k. map_option (map ((!) (objects (snd (CacheScheduleData cfg up st)))))
                               (data c k)
                            = map_option
                                (parseTimes (park_timezone cfg) (startOf (Some Day) (clock st))
                                   (endOf (Some Day) (addDays (int (scheduleMaxDates cfg)) (clock st))))
                                (lastSchedule k acts)))
              \<and> clock (snd (CacheScheduleData cfg up st)) = clock st1
              \<and> CacheScheduleData cfg up' (snd (CacheScheduleData cfg up st))
                  = (Inr (), snd (CacheScheduleData cfg up st))
              \<and> (\<forall>t. t \<le> clock st1 + 12 * 60 * 60 * 1000 \<longrightarrow>
                    CacheScheduleData cfg up' ((snd (CacheScheduleData cfg up st))\<lparr>clock := t\<rparr>)
                      = (Inr (), (snd (CacheScheduleData cfg up st))\<lparr>clock := t\<rparr>)))"
proof -
  let ?s = "startOf (Some Day) (clock st)"
  let ?e = "endOf (Some Day) (addDays (int (scheduleMaxDates cfg)) (clock st))"
  have a: "CacheScheduleData cfg up st = (Inr (), st)" if "cacheFresh cfg st" for st up
    using that by (simp add: CacheScheduleData_def)
  have 1: "CacheScheduleData cfg up st = (Inr (), st)
            \<and> requests (snd (CacheScheduleData cfg up st)) = requests st
            \<and> scheduleFetches (snd (CacheScheduleData cfg up st)) = scheduleFetches st
            \<and> scheduleCache (snd (CacheScheduleData cfg up st)) = scheduleCache st"
    if "scheduleCache st (resort_id cfg) = Some c" "clock st \<le> expires c" for c
  proof -
    have "cacheFresh cfg st" using that by (simp add: cacheFresh_def)
    then show ?thesis using a by simp
  qed
  have 2: "fst (CacheScheduleData cfg up st) = Inr ()
              \<and> (\<exists>c. scheduleCache (snd (CacheScheduleData cfg up st)) (resort_id cfg) = Some c
                     \<and> expires c = clock st1 + 12 * 60 * 60 * 1000
                     \<and> (\<forall>k. map_option (map ((!) (objects (snd (CacheScheduleData cfg up st)))))
                               (data c k)
                            = map_option (parseTimes (park_timezone cfg) ?s ?e) (lastSchedule k acts)))
              \<and> clock (snd (CacheScheduleData cfg up st)) = clock st1
              \<and> CacheScheduleData cfg up' (snd (CacheScheduleData cfg up st))
                  = (Inr (), snd (CacheScheduleData cfg up st))
              \<and> (\<forall>t. t \<le> clock st1 + 12 * 60 * 60 * 1000 \<longrightarrow>
                    CacheScheduleData cfg up' ((snd (CacheScheduleData cfg up st))\<lparr>clock := t\<rparr>)
                      = (Inr (), (snd (CacheScheduleData cfg up st))\<lparr>clock := t\<rparr>))"
    if stale: "\<forall>c. scheduleCache st (resort_id cfg) = Some c \<longrightarrow> expires c < clock st"
      and f: "FetchURL ScheduleURL (tokenReply up) (scheduleReply up) st = (Inr (Some d), st1)"
      and acts: "activities d = Some acts"
  proof -
    have nf: "\<not> cacheFresh cfg st"
      using stale by (auto simp: cacheFresh_def split: option.splits)
    let ?R = "parseActivities (park_timezone cfg) ?s ?e acts (objects st1) Map.empty"
    let ?c = "\<lparr>expires = clock st1 + 1000 * 60 * 60 * 12, data = snd ?R\<rparr>"
    let ?st' = "st1\<lparr>objects := fst ?R,
                    scheduleCache := (scheduleCache st1)(resort_id cfg \<mapsto> ?c)\<rparr>"
    have r: "CacheScheduleData cfg up st = (Inr (), ?st')"
      using refresh_result [OF nf f acts] .
    have v: "\<forall>k refs. Map.empty k = Some refs \<longrightarrow> (\<forall>a \<in> set refs. a < length (objects st1))"
      by simp
    have dat: "map_option (map ((!) (fst ?R))) (snd ?R k)
        = map_option (parseTimes (park_timezone cfg) ?s ?e) (lastSchedule k acts)" for k
      using parseActivities_data [OF v, of "park_timezone cfg" ?s ?e acts k]
      by (simp split: option.splits)
    have fr: "cacheFresh cfg (?st'\<lparr>clock := t\<rparr>)" if "t \<le> clock st1 + 12 * 60 * 60 * 1000" for t
      using that by (simp add: cacheFresh_def)
    have fr0: "cacheFresh cfg ?st'"
      by (simp add: cacheFresh_def)
    have c1: "fst (CacheScheduleData cfg up st) = Inr ()" using r by simp
    have c2: "\<exists>c. scheduleCache (snd (CacheScheduleData cfg up st)) (resort_id cfg) = Some c
                     \<and> expires c = clock st1 + 12 * 60 * 60 * 1000
                     \<and> (\<forall>k. map_option (map ((!) (objects (snd (CacheScheduleData cfg up st)))))
                               (data c k)
                            = map_option (parseTimes (park_timezone cfg) ?s ?e) (lastSchedule k acts))"
      unfolding r using dat by (intro exI [of _ ?c]) simp
    have c3: "clock (snd (CacheScheduleData cfg up st)) = clock st1" using r by simp
    have c4: "CacheScheduleData cfg up' (snd (CacheScheduleData cfg up st))
                  = (Inr (), snd (CacheScheduleData cfg up st))"
      unfolding r using a [OF fr0] by simp
    have c5: "\<forall>t. t \<le> clock st1 + 12 * 60 * 60 * 1000 \<longrightarrow>
                    CacheScheduleData cfg up' ((snd (CacheScheduleData cfg up st))\<lparr>clock := t\<rparr>)
                      = (Inr (), (snd (CacheScheduleData cfg up st))\<lparr>clock := t\<rparr>)"
      unfolding r using a [OF fr] by simp
    show ?thesis using c1 c2 c3 c4 c5 by blast
  qed
  show ?thesis using 1 2 by blast
qed

lemma exFetch_activities:
  "fst (FetchURL ScheduleURL (exTokenReply 3600) (exScheduleReply (Some exActivities)) exStale)
     = Inr (Some \<lparr>activities = Some exActivities\<rparr>)"
  by (simp add: FetchURL_def GetAccessToken_def FetchAccessToken_def MakeNetworkRequest_def Let_def
     truthyString_def truthyNumber_def exTokenReply_def exScheduleReply_def exStale_def)

lemma exFetch_clock:
  "clock (snd (FetchURL ScheduleURL (exTokenReply 3600) (exScheduleReply acts) exStale))
     = clock exStale + 420"
  by (simp add: FetchURL_def GetAccessToken_def FetchAccessToken_def MakeNetworkRequest_def Let_def
     truthyString_def truthyNumber_def exTokenReply_def exScheduleReply_def exStale_def
     split: json.splits)

text \<open>The example park: the refresh ends 420 ms after the call (token and schedule
  requests), the entry expires 12 hours later and holds the two days parsed for the ride;
  a second call, also one an hour later, does nothing.\<close>

theorem fresh_cache_no_fetch_witness:
  "map_option expires (scheduleCache exStale (resort_id exCfg)) = Some (momentOfDateTime 100 0)
   \<and> momentOfDateTime 100 0 < clock exStale
   \<and> fst (CacheScheduleData exCfg (exUpstream 3600 (Some exActivities) []) exStale) = Inr ()
   \<and> (\<exists>c. scheduleCache exLoaded (resort_id exCfg) = Some c
          \<and> expires c = clock exStale + 420 + 12 * 60 * 60 * 1000
          \<and> map_option (map ((!) (objects exLoaded))) (data c ''80010190'')
              = Some [\<lparr>date = Some 100, openingTime = momentOfDateTime 100 540,
                        closingTime = momentOfDateTime 100 1080, windowType = ''Operating'',
                        special = Some []\<rparr>,
                      \<lparr>date = Some 101, openingTime = momentOfDate 101,
                        closingTime = momentOfDate 101, windowType = ''Closed'',
                        special = None\<rparr>])
   \<and> CacheScheduleData exCfg (exUpstream 3600 (Some exActivities) []) exLoaded
      = (Inr (), exLoaded)
   \<and> CacheScheduleData exCfg (exUpstream 3600 (Some exActivities) [])
        (exLoaded\<lparr>clock := clock exStale + 3600000\<rparr>)
      = (Inr (), exLoaded\<lparr>clock := clock exStale + 3600000\<rparr>)"
proof -
  let ?up = "exUpstream 3600 (Some exActivities) []"
  let ?f = "FetchURL ScheduleURL (tokenReply ?up) (scheduleReply ?up) exStale"
  have h0: "map_option expires (scheduleCache exStale (resort_id exCfg)) = Some (momentOfDateTime 100 0)
      \<and> momentOfDateTime 100 0 < clock exStale"
    by (simp add: exCfg_def exStale_def momentOfDateTime_def dayMs_def)
  have h1: "\<forall>c. scheduleCache exStale (resort_id exCfg) = Some c \<longrightarrow> expires c < clock exStale"
    by (simp add: exCfg_def exStale_def momentOfDateTime_def dayMs_def)
  have h2: "?f = (Inr (Some \<lparr>activities = Some exActivities\<rparr>), snd ?f)"
    using exFetch_activities by (simp add: exUpstream_def prod_eq_iff)
  have h3: "activities \<lparr>activities = Some exActivities\<rparr> = Some exActivities" by simp
  have c: "clock (snd ?f) = clock exStale + 420"
    using exFetch_clock [of "Some exActivities"] by (simp add: exUpstream_def)
  note t = fresh_cache_no_fetch [of exStale exCfg ?up "\<lparr>activities = Some exActivities\<rparr>"
      "snd ?f" exActivities ?up, THEN conjunct2, rule_format, OF conjI [OF h1 conjI [OF h2 h3]],
      folded exLoaded_def, unfolded c]
  have l: "lastSchedule ''80010190'' exActivities
      = Some [\<lparr>rawDate = 100, startTime = 540, endTime = 1080, rawType = ''Operating''\<rparr>]"
    by (simp add: exActivities_def CleanRideID_def)
  have z: "park_timezone exCfg = fixedZone" by (simp add: exCfg_def)
  have p: "map_option (parseTimes (park_timezone exCfg) (startOf (Some Day) (clock exStale))
              (endOf (Some Day) (addDays (int (scheduleMaxDates exCfg)) (clock exStale))))
            (lastSchedule ''80010190'' exActivities)
      = Some [\<lparr>date = Some 100, openingTime = momentOfDateTime 100 540,
                        closingTime = momentOfDateTime 100 1080, windowType = ''Operating'',
                        special = Some []\<rparr>,
                      \<lparr>date = Some 101, openingTime = momentOfDate 101,
                        closingTime = momentOfDate 101, windowType = ''Closed'',
                        special = None\<rparr>]"
    unfolding l z ex_range by (simp add: ex_parseTimes)
  from t obtain c' where c': "scheduleCache exLoaded (resort_id exCfg) = Some c'"
      "expires c' = clock exStale + 420 + 12 * 60 * 60 * 1000"
      "\<forall>k. map_option (map ((!) (objects exLoaded))) (data c' k)
           = map_option (parseTimes (park_timezone exCfg) (startOf (Some Day) (clock exStale))
              (endOf (Some Day) (addDays (int (scheduleMaxDates exCfg)) (clock exStale))))
            (lastSchedule k exActivities)"
    by blast
  have d: "map_option (map ((!) (objects exLoaded))) (data c' ''80010190'')
      = Some [\<lparr>date = Some 100, openingTime = momentOfDateTime 100 540,
                        closingTime = momentOfDateTime 100 1080, windowType = ''Operating'',
                        special = Some []\<rparr>,
                      \<lparr>date = Some 101, openingTime = momentOfDate 101,
                        closingTime = momentOfDate 101, windowType = ''Closed'',
                        special = None\<rparr>]"
    using c'(3) p by simp
  have e: "\<exists>c. scheduleCache exLoaded (resort_id exCfg) = Some c
          \<and> expires c = clock exStale + 420 + 12 * 60 * 60 * 1000
          \<and> map_option (map ((!) (objects exLoaded))) (data c ''80010190'')
              = Some [\<lparr>date = Some 100, openingTime = momentOfDateTime 100 540,
                        closingTime = momentOfDateTime 100 1080, windowType = ''Operating'',
                        special = Some []\<rparr>,
                      \<lparr>date = Some 101, openingTime = momentOfDate 101,
                        closingTime = momentOfDate 101, windowType = ''Closed'',
                        special = None\<rparr>]"
    by (rule exI [of _ c'], intro conjI, rule c'(1), rule c'(2), rule d)
  have later: "clock exStale + 3600000 \<le> clock exStale + 420 + 12 * 60 * 60 * 1000" by simp
  have f1: "fst (CacheScheduleData exCfg ?up exStale) = Inr ()" using t by blast
  have f2: "CacheScheduleData exCfg ?up exLoaded = (Inr (), exLoaded)" using t by blast
  have f3: "CacheScheduleData exCfg ?up (exLoaded\<lparr>clock := clock exStale + 3600000\<rparr>)
      = (Inr (), exLoaded\<lparr>clock := clock exStale + 3600000\<rparr>)"
    using t later by blast
  show ?thesis using h0 f1 e f2 f3 by blast
qed

section \<open>Which schedule a ride gets\<close>

text \<open>
  What lines 117-142 select, for every array of cached schedule objects, every instant
  \<open>timeNow\<close> and every date \<open>dateToday\<close>: an object with \<open>openingTime < timeNow < closingTime\<close>
  (both ends excluded, as \<open>isBetween\<close> tests) if there is one; otherwise an object whose
  \<open>date\<close> is \<open>dateToday\<close> if there is one; otherwise the first object of a non-empty array;
  and \<open>null\<close> exactly when the array is empty.
\<close>

lemma selectSchedule_precedence:
  shows "((\<exists>a\<in>set cached. openingTime (store ! a) < timeNow \<and> timeNow < closingTime (store ! a))
          \<longrightarrow> (\<exists>a\<in>set cached. selectSchedule store timeNow dateToday cached = Some a
                 \<and> openingTime (store ! a) < timeNow \<and> timeNow < closingTime (store ! a)))
       \<and> (\<not> (\<exists>a\<in>set cached. openingTime (store ! a) < timeNow \<and> timeNow < closingTime (store ! a))
          \<and> (\<exists>a\<in>set cached. date (store ! a) = Some dateToday)
          \<longrightarrow> (\<exists>a\<in>set cached. selectSchedule store timeNow dateToday cached = Some a
                 \<and> date (store ! a) = Some dateToday))
       \<and> (\<not> (\<exists>a\<in>set cached. openingTime (store ! a) < timeNow \<and> timeNow < closingTime (store ! a))
          \<and> \<not> (\<exists>a\<in>set cached. date (store ! a) = Some dateToday)
          \<and> cached \<noteq> []
          \<longrightarrow> selectSchedule store timeNow dateToday cached = Some (hd cached))
       \<and> (selectSchedule store timeNow dateToday cached = None \<longleftrightarrow> cached = [])"
proof -
  let ?act = "\<lambda>a. openingTime (store ! a) < timeNow \<and> timeNow < closingTime (store ! a)"
  let ?r = "scanTimes store timeNow dateToday cached None None"
  have between: "isBetween timeNow (openingTime (store ! a)) (closingTime (store ! a)) = ?act a" for a
    by (simp add: isBetween_def isAfter_def isBefore_def)
  have sel: "selectSchedule store timeNow dateToday cached =
      (case snd ?r of
         Some a \<Rightarrow> Some a
       | None \<Rightarrow> (case fst ?r of
                    Some a \<Rightarrow> Some a
                  | None \<Rightarrow> if length cached \<noteq> 0 then Some (cached ! 0) else None))"
    by (simp add: selectSchedule_def case_prod_beta)
  have sN: "snd ?r = None \<longleftrightarrow> (\<forall>a\<in>set cached. \<not> ?act a)"
    using scan_schedule_None [of store timeNow dateToday cached None None] by (simp add: between)
  have sS: "snd ?r = Some a \<Longrightarrow> a \<in> set cached \<and> ?act a" for a
    using scan_schedule_Some [of store timeNow dateToday cached None None a] by (simp add: between)
  have tN: "fst ?r = None \<longleftrightarrow> (\<forall>a\<in>set cached. date (store ! a) \<noteq> Some dateToday)"
    using scan_todays_None [of store timeNow dateToday cached None None] by simp
  have tS: "fst ?r = Some a \<Longrightarrow> a \<in> set cached \<and> date (store ! a) = Some dateToday" for a
    using scan_todays_Some [of store timeNow dateToday cached None None a] by simp
  have hd0: "cached \<noteq> [] \<Longrightarrow> cached ! 0 = hd cached"
    by (simp add: hd_conv_nth)
  have 1: "(\<exists>a\<in>set cached. ?act a) \<longrightarrow>
      (\<exists>a\<in>set cached. selectSchedule store timeNow dateToday cached = Some a \<and> ?act a)"
  proof
    assume "\<exists>a\<in>set cached. ?act a"
    then have "snd ?r \<noteq> None" using sN by blast
    then obtain a where a: "snd ?r = Some a" by auto
    then have "selectSchedule store timeNow dateToday cached = Some a" using sel by simp
    then show "\<exists>a\<in>set cached. selectSchedule store timeNow dateToday cached = Some a \<and> ?act a"
      using sS [OF a] by blast
  qed
  have 2: "\<not> (\<exists>a\<in>set cached. ?act a) \<and> (\<exists>a\<in>set cached. date (store ! a) = Some dateToday) \<longrightarrow>
      (\<exists>a\<in>set cached. selectSchedule store timeNow dateToday cached = Some a
           \<and> date (store ! a) = Some dateToday)"
  proof
    assume h: "\<not> (\<exists>a\<in>set cached. ?act a) \<and> (\<exists>a\<in>set cached. date (store ! a) = Some dateToday)"
    then have n: "snd ?r = None" using sN by blast
    from h have "fst ?r \<noteq> None" using tN by blast
    then obtain a where a: "fst ?r = Some a" by auto
    then have "selectSchedule store timeNow dateToday cached = Some a" using sel n by simp
    then show "\<exists>a\<in>set cached. selectSchedule store timeNow dateToday cached = Some a
           \<and> date (store ! a) = Some dateToday"
      using tS [OF a] by blast
  qed
  have 3: "\<not> (\<exists>a\<in>set cached. ?act a) \<and> \<not> (\<exists>a\<in>set cached. date (store ! a) = Some dateToday)
        \<and> cached \<noteq> [] \<longrightarrow> selectSchedule store timeNow dateToday cached = Some (hd cached)"
  proof
    assume h: "\<not> (\<exists>a\<in>set cached. ?act a) \<and> \<not> (\<exists>a\<in>set cached. date (store ! a) = Some dateToday)
        \<and> cached \<noteq> []"
    then have n: "snd ?r = None" using sN by blast
    from h have m: "fst ?r = None" using tN by blast
    show "selectSchedule store timeNow dateToday cached = Some (hd cached)"
      using sel n m h hd0 by simp
  qed
  have 4: "selectSchedule store timeNow dateToday cached = None \<longleftrightarrow> cached = []"
  proof
    assume "selectSchedule store timeNow dateToday cached = None"
    then show "cached = []"
      using sel by (auto split: option.splits if_splits)
  next
    assume e: "cached = []"
    then have "snd ?r = None" "fst ?r = None" by simp_all
    then show "selectSchedule store timeNow dateToday cached = None" using sel e by simp
  qed
  show ?thesis using 1 2 3 4 by blast
qed

text \<open>With yesterday's schedule spilling to 02:00 and now = today 01:00, yesterday's
  object is chosen; at 03:00 today's; at 03:00 of the next day the first one; nothing from
  an empty array.\<close>

lemma selectSchedule_precedence_example:
  "(\<exists>a\<in>set [0, 1]. openingTime (exSpill ! a) < momentOfDateTime 100 60
        \<and> momentOfDateTime 100 60 < closingTime (exSpill ! a))
   \<and> selectSchedule exSpill (momentOfDateTime 100 60) 100 [0, 1] = Some 0
   \<and> selectSchedule exSpill (momentOfDateTime 100 180) 100 [0, 1] = Some 1
   \<and> selectSchedule exSpill (momentOfDateTime 101 180) 101 [0, 1] = Some 0
   \<and> selectSchedule exSpill (momentOfDateTime 100 60) 100 [] = None"
proof -
  have a: "\<exists>a\<in>set [0, 1]. openingTime (exSpill ! a) < momentOfDateTime 100 60
        \<and> momentOfDateTime 100 60 < closingTime (exSpill ! a)"
    by (simp add: exSpill_def momentOfDateTime_def dayMs_def)
  have n: "\<not> (openingTime (exSpill ! 1) < momentOfDateTime 100 60
        \<and> momentOfDateTime 100 60 < closingTime (exSpill ! 1))"
    by (simp add: exSpill_def momentOfDateTime_def dayMs_def)
  have 1: "selectSchedule exSpill (momentOfDateTime 100 60) 100 [0, 1] = Some 0"
    using a n selectSchedule_precedence [of "[0, 1]" exSpill "momentOfDateTime 100 60" 100]
    by auto
  have b: "\<not> (\<exists>a\<in>set [0, 1]. openingTime (exSpill ! a) < momentOfDateTime 100 180
        \<and> momentOfDateTime 100 180 < closingTime (exSpill ! a))"
    by (simp add: exSpill_def momentOfDateTime_def dayMs_def)
  have 2: "selectSchedule exSpill (momentOfDateTime 100 180) 100 [0, 1] = Some 1"
    using b selectSchedule_precedence [of "[0, 1]" exSpill "momentOfDateTime 100 180" 100]
    by (auto simp: exSpill_def)
  have c: "\<not> (\<exists>a\<in>set [0, 1]. openingTime (exSpill ! a) < momentOfDateTime 101 180
        \<and> momentOfDateTime 101 180 < closingTime (exSpill ! a))"
    by (simp add: exSpill_def momentOfDateTime_def dayMs_def)
  have 3: "selectSchedule exSpill (momentOfDateTime 101 180) 101 [0, 1] = Some 0"
    using c selectSchedule_precedence [of "[0, 1]" exSpill "momentOfDateTime 101 180" 101]
    by (auto simp: exSpill_def)
  have 4: "selectSchedule exSpill (momentOfDateTime 100 60) 100 [] = None"
    using selectSchedule_precedence [of "[]" exSpill "momentOfDateTime 100 60" 100] by simp
  show ?thesis using a 1 2 3 4 by blast
qed

text \<open>
  On an array as the parser stores it (every object carries the date of its opening
  instant, no two objects the same date) the selection is also right for the interval
  \<open>[openingTime, closingTime)\<close>: an object that opens exactly now is today's, and is
  chosen as such.
\<close>

lemma selectSchedule_half_open_dated:
  assumes d: "\<forall>a \<in> set cached. date (store ! a) = Some (formatDate (openingTime (store ! a)))"
    and inj: "\<forall>a \<in> set cached. \<forall>b \<in> set cached. date (store ! a) = date (store ! b) \<longrightarrow> a = b"
    and today: "dateToday = formatDate timeNow"
  shows "((\<exists>a\<in>set cached. openingTime (store ! a) \<le> timeNow \<and> timeNow < closingTime (store ! a))
          \<longrightarrow> (\<exists>a\<in>set cached. selectSchedule store timeNow dateToday cached = Some a
                 \<and> openingTime (store ! a) \<le> timeNow \<and> timeNow < closingTime (store ! a)))
       \<and> (\<not> (\<exists>a\<in>set cached. openingTime (store ! a) \<le> timeNow \<and> timeNow < closingTime (store ! a))
          \<and> (\<exists>a\<in>set cached. date (store ! a) = Some dateToday)
          \<longrightarrow> (\<exists>a\<in>set cached. selectSchedule store timeNow dateToday cached = Some a
                 \<and> date (store ! a) = Some dateToday))
       \<and> (\<not> (\<exists>a\<in>set cached. openingTime (store ! a) \<le> timeNow \<and> timeNow < closingTime (store ! a))
          \<and> \<not> (\<exists>a\<in>set cached. date (store ! a) = Some dateToday)
          \<and> cached \<noteq> []
          \<longrightarrow> selectSchedule store timeNow dateToday cached = Some (hd cached))
       \<and> (selectSchedule store timeNow dateToday cached = None \<longleftrightarrow> cached = [])"
proof -
  let ?strict = "\<lambda>a. openingTime (store ! a) < timeNow \<and> timeNow < closingTime (store ! a)"
  let ?half = "\<lambda>a. openingTime (store ! a) \<le> timeNow \<and> timeNow < closingTime (store ! a)"
  let ?sel = "selectSchedule store timeNow dateToday cached"
  note P = selectSchedule_precedence [of cached store timeNow dateToday]
  have P1: "(\<exists>a\<in>set cached. ?strict a) \<Longrightarrow> \<exists>a\<in>set cached. ?sel = Some a \<and> ?strict a"
    by (rule P [THEN conjunct1, THEN mp])
  have P2: "\<not> (\<exists>a\<in>set cached. ?strict a) \<Longrightarrow> \<exists>a\<in>set cached. date (store ! a) = Some dateToday
      \<Longrightarrow> \<exists>a\<in>set cached. ?sel = Some a \<and> date (store ! a) = Some dateToday"
    by (rule P [THEN conjunct2, THEN conjunct1, THEN mp]) (rule conjI)
  have P3: "\<not> (\<exists>a\<in>set cached. ?strict a) \<Longrightarrow> \<not> (\<exists>a\<in>set cached. date (store ! a) = Some dateToday)
      \<Longrightarrow> cached \<noteq> [] \<Longrightarrow> ?sel = Some (hd cached)"
    by (rule P [THEN conjunct2, THEN conjunct2, THEN conjunct1, THEN mp]) (intro conjI)
  have P4: "?sel = None \<longleftrightarrow> cached = []"
    by (rule P [THEN conjunct2, THEN conjunct2, THEN conjunct2])
  have sh: "?strict a \<Longrightarrow> ?half a" for a by simp
  have 1: "\<exists>a\<in>set cached. ?sel = Some a \<and> ?half a" if h: "\<exists>a\<in>set cached. ?half a"
  proof (cases "\<exists>b\<in>set cached. ?strict b")
    case True
    from P1 [OF True] show ?thesis using sh by blast
  next
    case False
    from h obtain a where a: "a \<in> set cached" "?half a" by blast
    then have "\<not> ?strict a" using False by blast
    then have "openingTime (store ! a) = timeNow" using a(2) by auto
    then have da: "date (store ! a) = Some dateToday" using d a(1) today by simp
    then have "\<exists>a\<in>set cached. date (store ! a) = Some dateToday" using a(1) by blast
    from P2 [OF False this] obtain a' where a': "a' \<in> set cached" "?sel = Some a'"
        "date (store ! a') = Some dateToday" by blast
    then have "a' = a" using inj a(1) da by simp
    then show ?thesis using a a'(2) by blast
  qed
  have nh: "\<not> (\<exists>a\<in>set cached. ?half a) \<Longrightarrow> \<not> (\<exists>a\<in>set cached. ?strict a)"
    using sh by blast
  show ?thesis using 1 P2 P3 P4 nh by blast
qed

text \<open>The example array with both dates is such an array.\<close>

lemma exDated_satisfies:
  "(\<forall>a \<in> set [0, 1]. date (exDated ! a) = Some (formatDate (openingTime (exDated ! a))))
   \<and> (\<forall>a \<in> set [0, 1]. \<forall>b \<in> set [0, 1]. date (exDated ! a) = date (exDated ! b) \<longrightarrow> a = b)"
  by (simp add: exDated_def time_defs)

text \<open>
  C2 says that a schedule whose interval \<open>[openingTime, closingTime)\<close> contains \<open>now\<close> is
  selected. The cache holds yesterday's and today's schedule (09:00 to 18:00 each), both
  dated; at 09:00 of day 100 the selection on this array is today's schedule, which opens
  now. But after a query at 08:00, which returns today's schedule and deletes its \<open>date\<close>
  in the cache (line 145), the query at 09:00 selects yesterday's schedule, the first of
  the array, although today's contains \<open>now\<close> and yesterday's does not.
\<close>

theorem selectSchedule_after_deleted_date:
  "selectSchedule exDated (momentOfDateTime 100 540) 100 [0, 1] = Some 1
   \<and> buildRide exCfg exCache (momentOfDateTime 100 480) 100 (exEntry (Some exOperating)) exDated
       = (Inr (Some \<lparr>obj_id = ''80010190'', obj_name = ''Ride'', obj_waitTime = 15,
                     obj_active = True, obj_status = ''Operating'', obj_fastPass = Some True,
                     obj_schedule = Cached 1\<rparr>),
          exOpening)
   \<and> selectSchedule exOpening (momentOfDateTime 100 540) 100 [0, 1] = Some 0
   \<and> \<not> (openingTime (exOpening ! 0) \<le> momentOfDateTime 100 540
          \<and> momentOfDateTime 100 540 < closingTime (exOpening ! 0))
   \<and> openingTime (exOpening ! 1) \<le> momentOfDateTime 100 540
   \<and> momentOfDateTime 100 540 < closingTime (exOpening ! 1)
   \<and> formatDate (momentOfDateTime 100 540) = 100"
proof -
  have a: "selectSchedule exDated (momentOfDateTime 100 540) 100 [0, 1] = Some 1"
    by (simp add: selectSchedule_def exDated_def isBetween_def isAfter_def isBefore_def
        momentOfDateTime_def dayMs_def)
  have b: "buildRide exCfg exCache (momentOfDateTime 100 480) 100 (exEntry (Some exOperating)) exDated
       = (Inr (Some \<lparr>obj_id = ''80010190'', obj_name = ''Ride'', obj_waitTime = 15,
                     obj_active = True, obj_status = ''Operating'', obj_fastPass = Some True,
                     obj_schedule = Cached 1\<rparr>),
          exOpening)"
    unfolding buildRide_def
    by (simp add: exEntry_def exOperating_def truthyString_def truthyNumber_def CleanRideID_def
        expectedRideStatusStrings_def Let_def exCache_def exCfg_def deleteDate_def
        selectSchedule_def exDated_def exOpening_def isBetween_def isAfter_def isBefore_def
        momentOfDateTime_def dayMs_def)
  have c: "selectSchedule exOpening (momentOfDateTime 100 540) 100 [0, 1] = Some 0
   \<and> \<not> (openingTime (exOpening ! 0) \<le> momentOfDateTime 100 540
          \<and> momentOfDateTime 100 540 < closingTime (exOpening ! 0))
   \<and> openingTime (exOpening ! 1) \<le> momentOfDateTime 100 540
   \<and> momentOfDateTime 100 540 < closingTime (exOpening ! 1)
   \<and> formatDate (momentOfDateTime 100 540) = 100"
    by (simp add: selectSchedule_def exOpening_def isBetween_def isAfter_def isBefore_def
      momentOfDateTime_def dayMs_def formatDate_def)
  show ?thesis using a b c by blast
qed

section \<open>A ride without cached schedule\<close>




section \<open>A query and the cached schedule objects\<close>

text \<open>
  C1 says that a wait-time query leaves the cached schedule unchanged. In the example the
  cache holds, for ride \<open>80010190\<close>, the objects at addresses 1 and 2, dated 100 and 101.
  A query at 10:00 of day 100 returns the ride with the object at address 1 as its
  \<open>schedule\<close> and deletes that object's \<open>date\<close>: the cache still lists addresses 1 and 2,
  and the object at address 1, which the cache shares with the ride, has lost its date.
\<close>

theorem query_deletes_cached_date:
  "map date (objects exLoaded) = [Some 100, Some 100, Some 101]
   \<and> (case scheduleCache exLoaded (resort_id exCfg) of
         None \<Rightarrow> None
       | Some c \<Rightarrow> data c ''80010190'') = Some [1, 2]
   \<and> fst (GetWaitTimes exCfg (exUpstream 3600 (Some exActivities) [exEntry (Some exOperating)])
            exLoaded)
       = Inr [\<lparr>obj_id = ''80010190'', obj_name = ''Ride'', obj_waitTime = 15,
               obj_active = True, obj_status = ''Operating'', obj_fastPass = Some True,
               obj_schedule = Cached 1\<rparr>]
   \<and> map date (objects (snd (GetWaitTimes exCfg
          (exUpstream 3600 (Some exActivities) [exEntry (Some exOperating)]) exLoaded)))
       = [Some 100, None, Some 101]
   \<and> scheduleCache (snd (GetWaitTimes exCfg
          (exUpstream 3600 (Some exActivities) [exEntry (Some exOperating)]) exLoaded))
       = scheduleCache exLoaded"
proof -
  have a: "map date (objects exLoaded) = [Some 100, Some 100, Some 101]"
    by (simp add: ex_loaded exWindow_def)
  have b: "(case scheduleCache exLoaded (resort_id exCfg) of
         None \<Rightarrow> None
       | Some c \<Rightarrow> data c ''80010190'') = Some [1, 2]"
    by (simp add: ex_loaded exCfg_def)
  have c: "buildRides exCfg (scheduleCache exLoaded) (momentOfDateTime 100 600 + 620) 100
      [exEntry (Some exOperating)] [] (objects exLoaded)
    = (Inr [\<lparr>obj_id = ''80010190'', obj_name = ''Ride'', obj_waitTime = 15,
            obj_active = True, obj_status = ''Operating'', obj_fastPass = Some True,
            obj_schedule = Cached 1\<rparr>],
       [exWindow,
           \<lparr>date = None, openingTime = momentOfDateTime 100 540,
             closingTime = momentOfDateTime 100 1080, windowType = ''Operating'', special = Some []\<rparr>,
           \<lparr>date = Some 101, openingTime = momentOfDate 101,
             closingTime = momentOfDate 101, windowType = ''Closed'', special = None\<rparr>])"
    by (simp add: ex_build_cached)
  show ?thesis
    unfolding ex_query_steps c
    using a b by (simp add: exWindow_def)
qed

section \<open>A live entry without status object\<close>

text \<open>
  C4 says that assembling a ride is total, also when the entry has no \<open>waitTime\<close> object.
  For the example entry without \<open>waitTime\<close>, whatever the configuration, cache, time and
  store, the loop body ends in a \<open>TypeError\<close> (line 107 reads \<open>ride.waitTime.fastPass\<close>
  unguarded), so does the loop, and the query on the example park returns no rides.
\<close>

theorem missing_waitTime_throws:
  "buildRide cfg cache timeNow dateToday (exEntry None) store = (Inl TypeError, store)
   \<and> buildRides cfg cache timeNow dateToday [exEntry None] [] store = (Inl TypeError, store)
   \<and> fst (GetWaitTimes exCfg (exUpstream 3600 (Some exActivities) [exEntry None]) exLoaded)
       = Inl TypeError"
proof -
  have a: "buildRide cfg cache timeNow dateToday (exEntry None) store = (Inl TypeError, store)"
    for cfg cache timeNow dateToday store
    by (simp add: buildRide_def exEntry_def truthyString_def Let_def)
  show ?thesis
    unfolding ex_query_steps by (simp add: a)
qed

section \<open>The order of a parsed schedule\<close>

text \<open>
  C5, as the code has it. For a refresh at instant \<open>now\<close> with \<open>scheduleMaxDates = n\<close>, the
  array stored for an attraction lists first the dates of its standard entries that fall
  in \<open>[today, today + n]\<close>, each at the place of its first appearance in the payload, and
  then the dates of that range without standard entry, in ascending order. The array is
  in ascending date order when the standard dates appear in ascending order in the
  payload and every back-filled date is later than all of them.
\<close>

theorem parseTimes_insertion_order:
  shows "map date (parseTimes z (startOf (Some Day) now)
                      (endOf (Some Day) (addDays (int n) now)) raw)
           = map Some
               (firstOccurrences (standardDates (formatDate now) (formatDate now + int n) raw)
                @ filter (\<lambda>d. d \<notin> set (standardDates (formatDate now) (formatDate now + int n) raw))
                    [formatDate now .. formatDate now + int n])
       \<and> (sorted_wrt (<) (standardDates (formatDate now) (formatDate now + int n) raw)
          \<and> (\<forall>x \<in> set (standardDates (formatDate now) (formatDate now + int n) raw).
               \<forall>d \<in> set [formatDate now .. formatDate now + int n].
                 d \<notin> set (standardDates (formatDate now) (formatDate now + int n) raw) \<longrightarrow> x < d)
          \<longrightarrow> (\<exists>ds. map date (parseTimes z (startOf (Some Day) now)
                              (endOf (Some Day) (addDays (int n) now)) raw) = map Some ds
                    \<and> sorted_wrt (<) ds))"
proof -
  let ?S = "standardDates (formatDate now) (formatDate now + int n) raw"
  let ?M = "filter (\<lambda>d. d \<notin> set ?S) [formatDate now .. formatDate now + int n]"
  let ?P = "parseTimes z (startOf (Some Day) now) (endOf (Some Day) (addDays (int n) now)) raw"
  have a: "map date ?P = map Some (firstOccurrences ?S @ ?M)"
    unfolding query_range by (rule parseTimes_dates)
  have b: "\<exists>ds. map date ?P = map Some ds \<and> sorted_wrt (<) ds"
    if s: "sorted_wrt (<) ?S"
    and m: "\<forall>x \<in> set ?S. \<forall>d \<in> set [formatDate now .. formatDate now + int n]. d \<notin> set ?S \<longrightarrow> x < d"
  proof -
    have "distinct ?S" using s by (simp add: strict_sorted_iff)
    then have f: "firstOccurrences ?S = ?S" by (rule firstOccurrences_distinct)
    have sm: "sorted_wrt (<) ?M" by (rule sorted_wrt_filter) simp
    have sa: "sorted_wrt (<) (?S @ ?M)"
      using s sm m by (auto simp: sorted_wrt_append)
    have "map date ?P = map Some (?S @ ?M)"
      using a unfolding f .
    then show ?thesis using sa by blast
  qed
  show ?thesis using a b by blast
qed

text \<open>A payload with today's entry only: dates 100, 101, in ascending order.\<close>

theorem parseTimes_insertion_order_witness:
  "sorted_wrt (<) (standardDates (formatDate (momentOfDateTime 100 600))
       (formatDate (momentOfDateTime 100 600) + int 1) [exDay 100])
   \<and> map date (parseTimes fixedZone (startOf (Some Day) (momentOfDateTime 100 600))
                   (endOf (Some Day) (addDays (int 1) (momentOfDateTime 100 600))) [exDay 100])
       = [Some 100, Some 101]
   \<and> (\<exists>ds. map date (parseTimes fixedZone (startOf (Some Day) (momentOfDateTime 100 600))
                   (endOf (Some Day) (addDays (int 1) (momentOfDateTime 100 600))) [exDay 100])
              = map Some ds \<and> sorted_wrt (<) ds)"
proof -
  have s: "standardDates (formatDate (momentOfDateTime 100 600))
       (formatDate (momentOfDateTime 100 600) + int 1) [exDay 100] = [100]"
    by (simp add: standardDates_def exDay_def openingTypes_def ex_range2)
  have u: "[formatDate (momentOfDateTime 100 600) .. formatDate (momentOfDateTime 100 600) + int 1]
      = [100, 101]"
    by (simp add: ex_range2 upto_rec1)
  note t = parseTimes_insertion_order [of fixedZone "momentOfDateTime 100 600" 1 "[exDay 100]"]
  note t1 = t [THEN conjunct1, unfolded s u]
  note t2 = t [THEN conjunct2, unfolded s u]
  have r: "map Some (firstOccurrences [100] @ filter (\<lambda>d. d \<notin> set [100]) [100, 101])
      = [Some 100, Some (101::int)]"
    by simp
  have 1: "map date (parseTimes fixedZone (startOf (Some Day) (momentOfDateTime 100 600))
                   (endOf (Some Day) (addDays (int 1) (momentOfDateTime 100 600))) [exDay 100])
       = [Some 100, Some 101]"
    using t1 unfolding r .
  have h: "sorted_wrt (<) [100::int]
      \<and> (\<forall>x \<in> set [100::int]. \<forall>d \<in> set [100, 101]. d \<notin> set [100] \<longrightarrow> x < d)"
    by simp
  have 2: "\<exists>ds. map date (parseTimes fixedZone (startOf (Some Day) (momentOfDateTime 100 600))
                   (endOf (Some Day) (addDays (int 1) (momentOfDateTime 100 600))) [exDay 100])
              = map Some ds \<and> sorted_wrt (<) ds"
    using t2 h by blast
  have 3: "sorted_wrt (<) (standardDates (formatDate (momentOfDateTime 100 600))
       (formatDate (momentOfDateTime 100 600) + int 1) [exDay 100])"
    unfolding s by simp
  show ?thesis using 1 2 3 by blast
qed

text \<open>
  C5 as stated fails: a payload listing day 101 before day 100 is stored in that order,
  and a payload with an entry for day 101 only is stored with the back-filled day 100
  after it.
\<close>

theorem parseTimes_not_ascending_counterexample:
  "map date (parseTimes fixedZone (startOf (Some Day) (momentOfDateTime 100 600))
               (endOf (Some Day) (addDays (int 1) (momentOfDateTime 100 600)))
               [exDay 101, exDay 100])
     = [Some 101, Some 100]
   \<and> map date (parseTimes fixedZone (startOf (Some Day) (momentOfDateTime 100 600))
               (endOf (Some Day) (addDays (int 1) (momentOfDateTime 100 600)))
               [exDay 101])
     = [Some 101, Some 100]"
  unfolding ex_range2
  by (simp add: parse_defs exDay_def time_defs)

section \<open>Back-filled days\<close>

text \<open>
  C3 says that a date absent from the payload is stored as a \<open>Closed\<close> schedule from the
  start to the end of that day. For an attraction without entries, refreshed at 10:00 of
  day 100 with one day ahead, both days are back-filled, once each (as
  \<open>parseTimes_covers_range\<close> shows for every payload), but each closes at
  the instant it opens, the start of the day, not at the end of the day: line 313 calls
  \<open>day.endOf()\<close> without a unit, which leaves the moment unchanged (the last conjunct
  shows the object made for any \<open>day\<close>).
\<close>

theorem backfill_closes_at_start_of_day:
  "parseTimes z (startOf (Some Day) (momentOfDateTime 100 600))
      (endOf (Some Day) (addDays (int 1) (momentOfDateTime 100 600))) []
     = [\<lparr>date = Some 100, openingTime = momentOfDate 100, closingTime = momentOfDate 100,
         windowType = ''Closed'', special = None\<rparr>,
        \<lparr>date = Some 101, openingTime = momentOfDate 101, closingTime = momentOfDate 101,
         windowType = ''Closed'', special = None\<rparr>]
   \<and> endOf (Some Day) (momentOfDate 100) = momentOfDate 100 + dayMs - 1
   \<and> momentOfDate 100 \<noteq> endOf (Some Day) (momentOfDate 100)
   \<and> fillStep [] day
       = [(formatDate day, \<lparr>date = Some (formatDate day), openingTime = day, closingTime = day,
             windowType = ''Closed'', special = None\<rparr>)]"
proof -
  have a: "parseTimes z (momentOfDate 100) (momentOfDate 101 + dayMs - 1) []
     = [\<lparr>date = Some 100, openingTime = momentOfDate 100, closingTime = momentOfDate 100,
         windowType = ''Closed'', special = None\<rparr>,
        \<lparr>date = Some 101, openingTime = momentOfDate 101, closingTime = momentOfDate 101,
         windowType = ''Closed'', special = None\<rparr>]"
    by (simp add: parse_defs time_defs)
  have b: "endOf (Some Day) (momentOfDate 100) = momentOfDate 100 + dayMs - 1"
    by (simp add: time_defs)
  have c: "momentOfDate 100 \<noteq> endOf (Some Day) (momentOfDate 100)"
    by (simp add: time_defs)
  have d: "fillStep [] day
       = [(formatDate day, \<lparr>date = Some (formatDate day), openingTime = day, closingTime = day,
             windowType = ''Closed'', special = None\<rparr>)]"
    by (simp add: fillStep_def objGet_def)
  show ?thesis unfolding ex_range2 using a b c d by simp
qed

section \<open>Overnight normalisation\<close>





end
